theory Spec2Isabelle
  imports Complex_Main "HOL-Library.AList"
begin

section \<open>Numbers\<close>

text \<open>
  A TypeScript \<open>number\<close> is an IEEE 754 double, and an optional field (\<open>x?: T\<close>) is an
  \<open>option\<close>. NaN, the infinities and the sign of zero are not modelled: a number is the real
  that a finite double denotes.

  In the route planner, the matcher and the dispatch service the arithmetic of the source is
  read exactly, over the reals (the results of \<open>Math.sin\<close>, \<open>Math.cos\<close> and \<open>Math.atan2\<close> are not
  specified to the last bit). In the pricing engine, whose results are rounded to two decimals
  and so depend on the last bit of a double, the arithmetic is read with its rounding, as
  follows.
\<close>

subsection \<open>Doubles\<close>

text \<open>
  The integer nearest to \<open>y\<close>, the even one of the two when \<open>y\<close> lies half-way.
\<close>

definition roundTiesToEven :: "real \<Rightarrow> int" where
  "roundTiesToEven y =
     (let n = \<lfloor>y\<rfloor>; d = y - of_int n
      in if d < 1 / 2 then n else if 1 / 2 < d then n + 1 else if even n then n else n + 1)"

text \<open>
  The doubles between \<open>2 ^ e\<close> and \<open>2 ^ (e + 1)\<close> are the multiples of \<open>2 ^ (e - 52)\<close>, the
  \<open>ulp\<close> of the reals of that range; \<open>fl x\<close> is the double nearest to \<open>x\<close> (significand of 53
  bits, round to nearest, ties to even). The exponent is not bounded: the overflow to an
  infinity (from \<open>2 ^ 1024\<close> on) and the gradual underflow (below \<open>2 ^ -1022\<close>) are not modelled.
\<close>

definition ulp :: "real \<Rightarrow> real" where
  "ulp x = 2 powr (of_int \<lfloor>log 2 \<bar>x\<bar>\<rfloor> - 52)"

definition fl :: "real \<Rightarrow> real" where
  "fl x = sgn x * (ulp x * of_int (roundTiesToEven (\<bar>x\<bar> / ulp x)))"

text \<open>
  The operators \<open>+\<close>, \<open>-\<close>, \<open>*\<close> and \<open>/\<close> on doubles: the exact result, rounded. (No division
  of the pricing engine has a zero divisor: the divisors are \<open>Math.max(..., 1)\<close> and 100.)
  A decimal literal of the source denotes the double nearest to it: \<open>0.15\<close> is \<open>fl 0.15\<close>;
  the literals that are doubles (the integers and the multiples of 0.5 below) are written as
  they are. \<open>Math.max\<close> and \<open>Math.min\<close> are exact.
\<close>

definition fadd :: "real \<Rightarrow> real \<Rightarrow> real" where
  "fadd x y = fl (x + y)"

definition fsub :: "real \<Rightarrow> real \<Rightarrow> real" where
  "fsub x y = fl (x - y)"

definition fmul :: "real \<Rightarrow> real \<Rightarrow> real" where
  "fmul x y = fl (x * y)"

definition fdiv :: "real \<Rightarrow> real \<Rightarrow> real" where
  "fdiv x y = fl (x / y)"

text \<open>\<open>Math.round\<close>: the nearest integer, the greater one of the two when \<open>x\<close> lies half-way.\<close>

definition mathRound :: "real \<Rightarrow> real" where
  "mathRound x = of_int \<lfloor>x + 1 / 2\<rfloor>"

text \<open>\<open>Math.round(x * 100) / 100\<close>\<close>

definition round2 :: "real \<Rightarrow> real" where
  "round2 x = fdiv (mathRound (fmul x 100)) 100"

section \<open>Geometry\<close>

record location =
  lat :: real
  lng :: real

definition toRadians :: "real \<Rightarrow> real" where
  "toRadians degrees = degrees * (pi / 180)"

text \<open>\<open>Math.atan2(y, x)\<close> on finite arguments (the sign of a zero is not modelled).\<close>

definition atan2 :: "real \<Rightarrow> real \<Rightarrow> real" where
  "atan2 y x =
     (if 0 < x then arctan (y / x)
      else if x < 0 then (if 0 \<le> y then arctan (y / x) + pi else arctan (y / x) - pi)
      else if 0 < y then pi / 2
      else if y < 0 then - (pi / 2)
      else 0)"

definition haversineDistance :: "'a location_scheme \<Rightarrow> 'b location_scheme \<Rightarrow> real" where
  "haversineDistance loc1 loc2 =
     (let R = 6371;
          dLat = toRadians (lat loc2 - lat loc1);
          dLng = toRadians (lng loc2 - lng loc1);
          a = sin (dLat / 2) * sin (dLat / 2) +
              cos (toRadians (lat loc1)) * cos (toRadians (lat loc2)) *
              sin (dLng / 2) * sin (dLng / 2);
          c = 2 * atan2 (sqrt a) (sqrt (1 - a))
      in R * c)"

definition estimateTravelTime :: "real \<Rightarrow> real" where
  "estimateTravelTime distanceKm = (distanceKm / 30) * 60"

section \<open>Pricing engine\<close>

datatype vehicleType = Sedan | Suv | Van

datatype weatherCondition = Clear | Rain | Snow

datatype demandLevel = Low | Normal | High | Very_high

record surgeZone =
  zone_id :: string
  zone_name :: string
  center_lat :: real
  center_lng :: real
  radius_km :: real
  current_surge :: real
  demand_level :: demandLevel
  active_requests :: real
  available_drivers :: real

record pricingFactors =
  distance :: real
  estimatedTime :: real
  vehicleType :: vehicleType
  timeOfDay :: real
  dayOfWeek :: real
  weatherCondition :: "weatherCondition option"
  surgeZone :: "surgeZone option"
  poolSize :: "real option"
  detourMinutes :: "real option"

record priceBreakdown =
  distanceCharge :: real
  timeCharge :: real
  baseAmount :: real
  surgeAmount :: real
  poolSavings :: real
  totalAmount :: real

record pricingResult =
  basePrice :: real
  surgeMultiplier :: real
  poolDiscount :: real
  finalPrice :: real
  breakdown :: priceBreakdown

text \<open>The tables of \<open>PRICING_CONFIG\<close>.\<close>

fun BASE_RATE_PER_KM :: "vehicleType \<Rightarrow> real" where
  "BASE_RATE_PER_KM Sedan = 2.50"
| "BASE_RATE_PER_KM Suv = 3.50"
| "BASE_RATE_PER_KM Van = 4.50"

fun TIME_RATE_PER_MIN :: "vehicleType \<Rightarrow> real" where
  "TIME_RATE_PER_MIN Sedan = fl 0.40"
| "TIME_RATE_PER_MIN Suv = fl 0.55"
| "TIME_RATE_PER_MIN Van = fl 0.70"

fun MINIMUM_FARE :: "vehicleType \<Rightarrow> real" where
  "MINIMUM_FARE Sedan = 8.00"
| "MINIMUM_FARE Suv = 12.00"
| "MINIMUM_FARE Van = 15.00"

definition SURGE_MIN :: real where "SURGE_MIN = 1.0"
definition SURGE_MAX :: real where "SURGE_MAX = 3.5"
definition BASE_DEMAND_THRESHOLD :: real where "BASE_DEMAND_THRESHOLD = 1.5"
definition PEAK_HOUR_MULTIPLIER :: real where "PEAK_HOUR_MULTIPLIER = fl 1.3"

fun WEATHER_MULTIPLIER :: "weatherCondition \<Rightarrow> real" where
  "WEATHER_MULTIPLIER Clear = 1.0"
| "WEATHER_MULTIPLIER Rain = fl 1.2"
| "WEATHER_MULTIPLIER Snow = 1.5"

definition PER_PASSENGER :: real where "PER_PASSENGER = fl 0.15"
definition MIN_DISCOUNT :: real where "MIN_DISCOUNT = 0.50"
definition DETOUR_PENALTY :: real where "DETOUR_PENALTY = fl 0.02"

definition calculateBasePrice :: "real \<Rightarrow> real \<Rightarrow> vehicleType \<Rightarrow> real" where
  "calculateBasePrice distanceKm timeMin vt =
     (let distanceCharge = fmul distanceKm (BASE_RATE_PER_KM vt);
          timeCharge = fmul timeMin (TIME_RATE_PER_MIN vt);
          basePrice = fadd distanceCharge timeCharge;
          minimumFare = MINIMUM_FARE vt
      in max basePrice minimumFare)"

definition isPeakHour :: "real \<Rightarrow> real \<Rightarrow> bool" where
  "isPeakHour hour day =
     (if day = 0 \<or> day = 6 then False
      else if hour \<ge> 7 \<and> hour < 10 then True
      else if hour \<ge> 17 \<and> hour < 20 then True
      else False)"

definition calculateSurgeMultiplier :: "pricingFactors \<Rightarrow> real" where
  "calculateSurgeMultiplier factors =
     (let surge0 = 1.0;
          surge1 = (case surgeZone factors of
                      None \<Rightarrow> surge0
                    | Some z \<Rightarrow>
                        (let demandSupplyRatio = fdiv (active_requests z) (max (available_drivers z) 1);
                             s = (if demandSupplyRatio > BASE_DEMAND_THRESHOLD
                                  then fadd surge0
                                         (min (fmul (fsub demandSupplyRatio BASE_DEMAND_THRESHOLD) 0.5) 1.5)
                                  else surge0)
                         in max s (current_surge z)));
          surge2 = (if isPeakHour (timeOfDay factors) (dayOfWeek factors)
                    then fmul surge1 PEAK_HOUR_MULTIPLIER else surge1);
          surge3 = (case weatherCondition factors of
                      None \<Rightarrow> surge2
                    | Some w \<Rightarrow> fmul surge2 (WEATHER_MULTIPLIER w));
          surge4 = min surge3 SURGE_MAX;
          surge5 = max surge4 SURGE_MIN
      in surge5)"

text \<open>
  \<open>!poolSize\<close> holds for an absent pool size and for 0; \<open>detourMinutes && detourMinutes > 0\<close>
  holds for a present, positive detour.
\<close>

definition calculatePoolDiscount :: "real option \<Rightarrow> real option \<Rightarrow> real" where
  "calculatePoolDiscount poolSize' detourMinutes' =
     (case poolSize' of
        None \<Rightarrow> 1.0
      | Some p \<Rightarrow>
          if p = 0 \<or> p \<le> 1 then 1.0
          else
            (let baseDiscount = fmul PER_PASSENGER (fsub p 1);
                 detourPenalty = (case detourMinutes' of
                                    None \<Rightarrow> 0
                                  | Some d \<Rightarrow> if d \<noteq> 0 \<and> d > 0 then fmul DETOUR_PENALTY d else 0);
                 netDiscount = fsub baseDiscount detourPenalty;
                 discountMultiplier = fsub 1 (max netDiscount 0)
             in max discountMultiplier MIN_DISCOUNT))"

text \<open>
  The locals \<open>priceAfterSurge\<close> and \<open>finalPrice\<close> of \<open>calculateDynamicPrice\<close>, before the
  rounding that is applied to the fields of the returned object.
\<close>

definition priceAfterSurge :: "pricingFactors \<Rightarrow> real" where
  "priceAfterSurge factors =
     fmul (calculateBasePrice (distance factors) (estimatedTime factors) (vehicleType factors))
          (calculateSurgeMultiplier factors)"

definition finalPriceUnrounded :: "pricingFactors \<Rightarrow> real" where
  "finalPriceUnrounded factors =
     fmul (priceAfterSurge factors)
          (calculatePoolDiscount (poolSize factors) (detourMinutes factors))"

definition calculateDynamicPrice :: "pricingFactors \<Rightarrow> pricingResult" where
  "calculateDynamicPrice factors =
     (let basePrice' = calculateBasePrice (distance factors) (estimatedTime factors) (vehicleType factors);
          surgeMultiplier' = calculateSurgeMultiplier factors;
          poolDiscount' = calculatePoolDiscount (poolSize factors) (detourMinutes factors);
          priceAfterSurge' = priceAfterSurge factors;
          finalPrice' = finalPriceUnrounded factors;
          distanceCharge' = fmul (distance factors) (BASE_RATE_PER_KM (vehicleType factors));
          timeCharge' = fmul (estimatedTime factors) (TIME_RATE_PER_MIN (vehicleType factors));
          surgeAmount' = fsub priceAfterSurge' basePrice';
          poolSavings' = fsub priceAfterSurge' finalPrice'
      in \<lparr> basePrice = round2 basePrice',
           surgeMultiplier = round2 surgeMultiplier',
           poolDiscount = round2 poolDiscount',
           finalPrice = round2 finalPrice',
           breakdown = \<lparr> distanceCharge = round2 distanceCharge',
                         timeCharge = round2 timeCharge',
                         baseAmount = round2 basePrice',
                         surgeAmount = round2 surgeAmount',
                         poolSavings = round2 poolSavings',
                         totalAmount = round2 finalPrice' \<rparr> \<rparr>)"

record surgeUpdate =
  newSurge :: real
  demandLevel :: demandLevel

text \<open>The value of \<open>newSurge\<close> in \<open>updateSurgeZone\<close> after the two caps and before the rounding.\<close>

definition smoothedSurge :: "real \<Rightarrow> real \<Rightarrow> real \<Rightarrow> real" where
  "smoothedSurge activeRequests availableDrivers currentSurge =
     (let demandSupplyRatio = fdiv activeRequests (max availableDrivers 1);
          raw = (if demandSupplyRatio < 0.5 then 1.0
                 else if demandSupplyRatio < 1.5 then 1.0
                 else if demandSupplyRatio < 3.0
                   then fadd 1.0 (fmul (fsub demandSupplyRatio 1.5) (fl 0.4))
                 else fadd (fl 1.6) (fmul (fsub demandSupplyRatio 3.0) (fl 0.3)));
          ALPHA = fl 0.3;
          smoothed = fadd (fmul ALPHA raw) (fmul (fsub 1 ALPHA) currentSurge)
      in max (min smoothed SURGE_MAX) SURGE_MIN)"

definition updateSurgeZone :: "real \<Rightarrow> real \<Rightarrow> real \<Rightarrow> surgeUpdate" where
  "updateSurgeZone activeRequests availableDrivers currentSurge =
     (let demandSupplyRatio = fdiv activeRequests (max availableDrivers 1);
          level = (if demandSupplyRatio < 0.5 then Low
                   else if demandSupplyRatio < 1.5 then Normal
                   else if demandSupplyRatio < 3.0 then High
                   else Very_high)
      in \<lparr> newSurge = round2 (smoothedSurge activeRequests availableDrivers currentSurge),
           demandLevel = level \<rparr>)"

section \<open>Route planner\<close>

datatype passengerStatus = Pending | Matched | In_transit | Completed | Cancelled

text \<open>
  The interface \<open>Passenger\<close>. The field \<open>id\<close> is named \<open>pid\<close>; the timestamps, ISO strings in
  the source that are only compared after \<open>new Date(...).getTime()\<close>, are those epoch
  milliseconds.
\<close>

record passenger =
  pid :: string
  user_id :: string
  pickup_lat :: real
  pickup_lng :: real
  dropoff_lat :: real
  dropoff_lng :: real
  luggage_count :: real
  seats_required :: real
  max_detour_minutes :: real
  detour_tolerance :: real
  status :: passengerStatus
  pool_id :: "string option"
  requested_at :: int
  matched_at :: "int option"
  completed_at :: "int option"
  cancelled_at :: "int option"
  cancellation_reason :: "string option"
  base_price :: "real option"
  final_price :: "real option"
  surge_multiplier :: real

datatype pointType = Pickup | Dropoff

text \<open>\<open>RoutePoint extends Location\<close>; its field \<open>type\<close> is named \<open>point_type\<close>.\<close>

record routePoint = location +
  passenger_id :: string
  point_type :: pointType
  time_window :: "real option"

record passengerConstraint =
  maxDetourMinutes :: real
  directDistance :: real
  directTime :: real
  seatsRequired :: real
  luggageCount :: real

record routeConstraints =
  maxSeats :: real
  maxLuggage :: real
  passengerConstraints :: "string \<rightharpoonup> passengerConstraint"

text \<open>
  A JavaScript \<open>Map\<close> that is iterated is an association list in insertion order, written
  with \<open>AList.update\<close> (which replaces in place or appends, as \<open>Map.set\<close> does).
\<close>

record optimizedRoute =
  waypoints :: "routePoint list"
  total_distance :: real
  total_time :: real
  detours :: "(string \<times> real) list"

definition isValidNextWaypoint ::
  "routePoint \<Rightarrow> string set \<Rightarrow> real \<Rightarrow> real \<Rightarrow> routeConstraints \<Rightarrow> bool" where
  "isValidNextWaypoint waypoint pickedUp currentSeats currentLuggage constraints =
     (if point_type waypoint = Dropoff \<and> passenger_id waypoint \<notin> pickedUp then False
      else if point_type waypoint = Pickup then
        (case passengerConstraints constraints (passenger_id waypoint) of
           None \<Rightarrow> False
         | Some constraint \<Rightarrow>
             if currentSeats + seatsRequired constraint > maxSeats constraints then False
             else if currentLuggage + luggageCount constraint > maxLuggage constraints then False
             else True)
      else True)"

text \<open>
  \<open>calculateDetours\<close>: the loop over the route, carrying the previous waypoint (absent at
  index 0), the clock, the pickup times and the detours found so far.
  \<open>pickupTimes.get(id) || 0\<close> is 0 for a passenger that has not been picked up.
\<close>

fun calculateDetoursLoop ::
  "routeConstraints \<Rightarrow> routePoint option \<Rightarrow> real \<Rightarrow> (string \<rightharpoonup> real) \<Rightarrow>
   (string \<times> real) list \<Rightarrow> routePoint list \<Rightarrow> (string \<times> real) list" where
  "calculateDetoursLoop constraints prev currentTime pickupTimes dets [] = dets"
| "calculateDetoursLoop constraints prev currentTime pickupTimes dets (waypoint # rest) =
     (let currentTime' = (case prev of
                            None \<Rightarrow> currentTime
                          | Some prevWaypoint \<Rightarrow>
                              currentTime + estimateTravelTime (haversineDistance prevWaypoint waypoint))
      in if point_type waypoint = Pickup then
           calculateDetoursLoop constraints (Some waypoint) currentTime'
             (pickupTimes(passenger_id waypoint \<mapsto> currentTime')) dets rest
         else
           (let pickupTime = (case pickupTimes (passenger_id waypoint) of
                                None \<Rightarrow> 0 | Some t \<Rightarrow> t);
                actualTime = currentTime' - pickupTime
            in case passengerConstraints constraints (passenger_id waypoint) of
                 None \<Rightarrow>
                   calculateDetoursLoop constraints (Some waypoint) currentTime' pickupTimes dets rest
               | Some constraint \<Rightarrow>
                   calculateDetoursLoop constraints (Some waypoint) currentTime' pickupTimes
                     (AList.update (passenger_id waypoint) (actualTime - directTime constraint) dets)
                     rest))"

definition calculateDetours :: "routePoint list \<Rightarrow> routeConstraints \<Rightarrow> (string \<times> real) list" where
  "calculateDetours route constraints =
     calculateDetoursLoop constraints None 0 Map.empty [] route"

text \<open>
  The validation loop over \<open>detours.entries()\<close>, shared by the greedy construction and by 2-opt:
  some entry has a constraint whose tolerance its detour exceeds.
\<close>

definition detourViolated :: "routeConstraints \<Rightarrow> (string \<times> real) list \<Rightarrow> bool" where
  "detourViolated constraints dets =
     list_ex (\<lambda>(passengerId, detour).
        case passengerConstraints constraints passengerId of
          None \<Rightarrow> False
        | Some constraint \<Rightarrow> detour > maxDetourMinutes constraint) dets"

text \<open>
  The inner \<open>for\<close> loop of the greedy construction. \<open>best\<close> is \<open>(bestWaypoint, bestDistance)\<close>,
  \<open>None\<close> standing for \<open>(null, Infinity)\<close>, below which every distance lies.
\<close>

fun findNearest ::
  "location \<Rightarrow> string set \<Rightarrow> real \<Rightarrow> real \<Rightarrow> routeConstraints \<Rightarrow>
   (routePoint \<times> real) option \<Rightarrow> routePoint list \<Rightarrow> (routePoint \<times> real) option" where
  "findNearest currentLocation pickedUp currentSeats currentLuggage constraints best [] = best"
| "findNearest currentLocation pickedUp currentSeats currentLuggage constraints best (waypoint # rest) =
     (if \<not> isValidNextWaypoint waypoint pickedUp currentSeats currentLuggage constraints then
        findNearest currentLocation pickedUp currentSeats currentLuggage constraints best rest
      else
        (let distance = haversineDistance currentLocation waypoint
         in if (case best of None \<Rightarrow> True | Some (bw, bestDistance) \<Rightarrow> distance < bestDistance)
            then findNearest currentLocation pickedUp currentSeats currentLuggage constraints
                   (Some (waypoint, distance)) rest
            else findNearest currentLocation pickedUp currentSeats currentLuggage constraints best rest))"

record greedyState =
  route :: "routePoint list"
  unvisited :: "routePoint list"
  pickedUp :: "string set"
  currentLocation :: location
  currentSeats :: real
  currentLuggage :: real
  totalDistance :: real
  totalTime :: real

text \<open>
  The body of the \<open>while\<close> loop after a waypoint has been found. \<open>unvisited\<close> is a \<open>Set\<close> of
  objects, iterated in insertion order; the waypoint found is the first of its value in that
  order, so deleting the object is \<open>remove1\<close>.
\<close>

definition visit :: "routeConstraints \<Rightarrow> greedyState \<Rightarrow> routePoint \<Rightarrow> real \<Rightarrow> greedyState" where
  "visit constraints st bestWaypoint bestDistance =
     (let st1 = st \<lparr> route := route st @ [bestWaypoint],
                     unvisited := remove1 bestWaypoint (unvisited st),
                     totalDistance := totalDistance st + bestDistance,
                     totalTime := totalTime st + estimateTravelTime bestDistance,
                     currentLocation := \<lparr> lat = lat bestWaypoint, lng = lng bestWaypoint \<rparr> \<rparr>
      in if point_type bestWaypoint = Pickup then
           (let st2 = st1 \<lparr> pickedUp := insert (passenger_id bestWaypoint) (pickedUp st1) \<rparr>
            in case passengerConstraints constraints (passenger_id bestWaypoint) of
                 None \<Rightarrow> st2
               | Some constraint \<Rightarrow>
                   st2 \<lparr> currentSeats := currentSeats st2 + seatsRequired constraint,
                         currentLuggage := currentLuggage st2 + luggageCount constraint \<rparr>)
         else
           (let st2 = st1 \<lparr> pickedUp := pickedUp st1 - {passenger_id bestWaypoint} \<rparr>
            in case passengerConstraints constraints (passenger_id bestWaypoint) of
                 None \<Rightarrow> st2
               | Some constraint \<Rightarrow>
                   st2 \<lparr> currentSeats := currentSeats st2 - seatsRequired constraint,
                         currentLuggage := currentLuggage st2 - luggageCount constraint \<rparr>))"

text \<open>
  The \<open>while (unvisited.size > 0)\<close> loop; \<open>None\<close> is the \<open>return null\<close> when no valid waypoint
  is left. Every iteration removes a waypoint, so the number of waypoints bounds the number
  of iterations: the first argument starts at that number and is never exhausted first
  (see \<open>greedyLoop_fuel\<close>).
\<close>

fun greedyLoop :: "nat \<Rightarrow> routeConstraints \<Rightarrow> greedyState \<Rightarrow> greedyState option" where
  "greedyLoop n constraints st =
     (if unvisited st = [] then Some st
      else case n of
        0 \<Rightarrow> None
      | Suc k \<Rightarrow>
          (case findNearest (currentLocation st) (pickedUp st) (currentSeats st) (currentLuggage st)
                  constraints None (unvisited st) of
             None \<Rightarrow> None
           | Some (bestWaypoint, bestDistance) \<Rightarrow>
               greedyLoop k constraints (visit constraints st bestWaypoint bestDistance)))"

definition greedyRouteConstruction ::
  "routePoint list \<Rightarrow> location \<Rightarrow> routeConstraints \<Rightarrow> optimizedRoute option" where
  "greedyRouteConstruction wps startLocation constraints =
     (case greedyLoop (length wps) constraints
             \<lparr> route = [], unvisited = wps, pickedUp = {}, currentLocation = startLocation,
               currentSeats = 0, currentLuggage = 0, totalDistance = 0, totalTime = 0 \<rparr> of
        None \<Rightarrow> None
      | Some st \<Rightarrow>
          (let dets = calculateDetours (route st) constraints
           in if detourViolated constraints dets then None
              else Some \<lparr> waypoints = route st, total_distance = totalDistance st,
                          total_time = totalTime st, detours = dets \<rparr>))"

text \<open>2-opt. The candidate of the pair \<open>(i, j)\<close>: the segment \<open>[i+1, j]\<close> reversed.\<close>

definition reverseSegment :: "routePoint list \<Rightarrow> nat \<Rightarrow> nat \<Rightarrow> routePoint list" where
  "reverseSegment wps i j =
     take (i + 1) wps @ rev (drop (i + 1) (take (j + 1) wps)) @ drop (j + 1) wps"

fun pathDistance :: "real \<Rightarrow> routePoint list \<Rightarrow> real" where
  "pathDistance acc (a # b # rest) = pathDistance (acc + haversineDistance a b) (b # rest)"
| "pathDistance acc rest = acc"

definition tryCandidate ::
  "routeConstraints \<Rightarrow> optimizedRoute \<times> bool \<Rightarrow> nat \<times> nat \<Rightarrow> optimizedRoute \<times> bool" where
  "tryCandidate constraints state ij =
     (let bestRoute = fst state;
          newWaypoints = reverseSegment (waypoints bestRoute) (fst ij) (snd ij);
          newDistance = pathDistance 0 newWaypoints
      in if newDistance < total_distance bestRoute then
           (let newDetours = calculateDetours newWaypoints constraints
            in if \<not> detourViolated constraints newDetours then
                 (\<lparr> waypoints = newWaypoints, total_distance = newDistance,
                     total_time = estimateTravelTime newDistance, detours = newDetours \<rparr>, True)
               else state)
         else state)"

text \<open>
  The pairs visited by the two \<open>for\<close> loops. A candidate has the length of the route it
  replaces, so the bounds, read from \<open>bestRoute\<close> in the source, are those of the route the
  pass starts from.
\<close>

definition twoOptPairs :: "nat \<Rightarrow> (nat \<times> nat) list" where
  "twoOptPairs n = concat (map (\<lambda>i. map (\<lambda>j. (i, j)) [i + 2..<n]) [0..<n - 1])"

definition twoOptPass :: "routeConstraints \<Rightarrow> optimizedRoute \<Rightarrow> optimizedRoute \<times> bool" where
  "twoOptPass constraints bestRoute =
     foldl (tryCandidate constraints) (bestRoute, False)
       (twoOptPairs (length (waypoints bestRoute)))"

definition MAX_ITERATIONS :: nat where "MAX_ITERATIONS = 100"

function twoOptWhile ::
  "routeConstraints \<Rightarrow> bool \<Rightarrow> nat \<Rightarrow> optimizedRoute \<Rightarrow> optimizedRoute" where
  "twoOptWhile constraints improved iterations bestRoute =
     (if improved \<and> iterations < MAX_ITERATIONS then
        twoOptWhile constraints (snd (twoOptPass constraints bestRoute)) (iterations + 1)
          (fst (twoOptPass constraints bestRoute))
      else bestRoute)"
  by pat_completeness auto
termination
  by (relation "measure (\<lambda>(c, imp, it, r). MAX_ITERATIONS - it)") auto

declare twoOptWhile.simps [simp del]

definition twoOptOptimization :: "optimizedRoute \<Rightarrow> routeConstraints \<Rightarrow> optimizedRoute" where
  "twoOptOptimization r constraints = twoOptWhile constraints True 0 r"

fun buildWaypoints :: "passenger list \<Rightarrow> routePoint list" where
  "buildWaypoints [] = []"
| "buildWaypoints (p # ps) =
     \<lparr> lat = pickup_lat p, lng = pickup_lng p, passenger_id = pid p,
       point_type = Pickup, time_window = Some (max_detour_minutes p) \<rparr>
     # \<lparr> lat = dropoff_lat p, lng = dropoff_lng p, passenger_id = pid p,
         point_type = Dropoff, time_window = Some (max_detour_minutes p) \<rparr>
     # buildWaypoints ps"

definition optimizeRoute ::
  "passenger list \<Rightarrow> location \<Rightarrow> routeConstraints \<Rightarrow> optimizedRoute option" where
  "optimizeRoute passengers startLocation constraints =
     (case greedyRouteConstruction (buildWaypoints passengers) startLocation constraints of
        None \<Rightarrow> None
      | Some result \<Rightarrow> Some (twoOptOptimization result constraints))"

text \<open>
  The quotient \<open>x / y\<close> of two numbers. For a zero divisor it is NaN or an infinity, which is
  \<open>None\<close>.
\<close>

definition quotient :: "real \<Rightarrow> real \<Rightarrow> real option" where
  "quotient x y = (if y = 0 then None else Some (x / y))"

text \<open>
  \<open>calculateEfficiencyScore\<close>. The \<open>Set\<close> of passenger ids keeps the order of first insertion;
  \<open>Array.find\<close> is \<open>List.find\<close>. The result is a number, or \<open>None\<close> for NaN and the infinities.
\<close>

definition addPassengerId :: "string list \<Rightarrow> string \<Rightarrow> string list" where
  "addPassengerId ids x = (if x \<in> set ids then ids else ids @ [x])"

definition directDistanceOf :: "routePoint list \<Rightarrow> string \<Rightarrow> real option" where
  "directDistanceOf wps p =
     (case (List.find (\<lambda>w. passenger_id w = p \<and> point_type w = Pickup) wps,
            List.find (\<lambda>w. passenger_id w = p \<and> point_type w = Dropoff) wps) of
        (Some pickup, Some dropoff) \<Rightarrow> Some (haversineDistance pickup dropoff)
      | _ \<Rightarrow> None)"

definition calculateEfficiencyScore :: "optimizedRoute \<Rightarrow> real option" where
  "calculateEfficiencyScore r =
     (let passengers = foldl addPassengerId [] (map passenger_id (waypoints r));
          directDistanceSum =
            foldl (\<lambda>acc p. case directDistanceOf (waypoints r) p of
                              Some d \<Rightarrow> acc + d
                            | None \<Rightarrow> acc) 0 passengers
      in if total_distance r = 0 then Some 0
         else quotient directDistanceSum (total_distance r))"

text \<open>
  For the statement of the tie-break: \<open>w\<close>, at distance \<open>d\<close> from \<open>loc\<close>, is the first of the
  nearest valid waypoints of \<open>ws\<close>. Every valid waypoint before it is farther away, and no
  valid waypoint after it is nearer.
\<close>

definition firstNearest ::
  "location \<Rightarrow> (routePoint \<Rightarrow> bool) \<Rightarrow> routePoint list \<Rightarrow> routePoint \<Rightarrow> real \<Rightarrow> bool" where
  "firstNearest loc valid ws w d \<longleftrightarrow>
     (\<exists>before after.
        ws = before @ w # after \<and> valid w \<and> d = haversineDistance loc w
        \<and> (\<forall>x \<in> set before. valid x \<longrightarrow> d < haversineDistance loc x)
        \<and> (\<forall>x \<in> set after. valid x \<longrightarrow> d \<le> haversineDistance loc x))"

text \<open>
  For the statement of the efficiency score, in the words of its description: the sum, over
  the distinct passengers of the route, of the haversine distance from the passenger's pickup
  to its dropoff (a passenger without one of the two adds nothing).
\<close>

definition directDistanceSum :: "optimizedRoute \<Rightarrow> real" where
  "directDistanceSum r =
     (\<Sum>p \<in> set (map passenger_id (waypoints r)).
        case (List.find (\<lambda>w. passenger_id w = p \<and> point_type w = Pickup) (waypoints r),
              List.find (\<lambda>w. passenger_id w = p \<and> point_type w = Dropoff) (waypoints r)) of
          (Some pickup, Some dropoff) \<Rightarrow> haversineDistance pickup dropoff
        | _ \<Rightarrow> 0)"

section \<open>Matcher\<close>

text \<open>
  The interface \<open>MatchingResult\<close>; its fields \<open>pool_id\<close>, \<open>passengers\<close> and \<open>route\<close> carry the
  prefix \<open>mr_\<close>.
\<close>

record matchingResult =
  mr_pool_id :: string
  mr_passengers :: "string list"
  mr_route :: optimizedRoute
  pricing :: "(string \<times> real) list"
  feasible :: bool
  efficiency_score :: "real option"

text \<open>\<open>determineVehicleType(seats, luggage)\<close> of the matcher (\<open>algorithms/matcher.ts\<close>).\<close>

definition matcher_determineVehicleType :: "real \<Rightarrow> real \<Rightarrow> vehicleType option" where
  "matcher_determineVehicleType seats luggage =
     (if seats \<le> 4 \<and> luggage \<le> 3 then Some Sedan
      else if seats \<le> 6 \<and> luggage \<le> 5 then Some Suv
      else if seats \<le> 8 \<and> luggage \<le> 8 then Some Van
      else None)"

record vehicleCapacity =
  cap_maxSeats :: real
  cap_maxLuggage :: real

text \<open>\<open>getVehicleCapacity\<close>, the same function in the matcher and in the dispatch service.\<close>

fun getVehicleCapacity :: "vehicleType \<Rightarrow> vehicleCapacity" where
  "getVehicleCapacity Sedan = \<lparr> cap_maxSeats = 4, cap_maxLuggage = 3 \<rparr>"
| "getVehicleCapacity Suv = \<lparr> cap_maxSeats = 6, cap_maxLuggage = 5 \<rparr>"
| "getVehicleCapacity Van = \<lparr> cap_maxSeats = 8, cap_maxLuggage = 8 \<rparr>"

text \<open>\<open>calculateCentroid\<close> of the matcher, called on a non-empty list only.\<close>

definition calculateCentroid :: "location list \<Rightarrow> location" where
  "calculateCentroid locations =
     (let sumLat = foldl (\<lambda>sum loc. sum + lat loc) 0 locations;
          sumLng = foldl (\<lambda>sum loc. sum + lng loc) 0 locations
      in \<lparr> lat = sumLat / real (length locations), lng = sumLng / real (length locations) \<rparr>)"

definition constraintOf :: "passenger \<Rightarrow> passengerConstraint" where
  "constraintOf p =
     (let direct = haversineDistance \<lparr> lat = pickup_lat p, lng = pickup_lng p \<rparr>
                                       \<lparr> lat = dropoff_lat p, lng = dropoff_lng p \<rparr>
      in \<lparr> maxDetourMinutes = max_detour_minutes p,
           directDistance = direct,
           directTime = estimateTravelTime direct,
           seatsRequired = seats_required p,
           luggageCount = luggage_count p \<rparr>)"

text \<open>
  \<open>tryFormPool\<close>. The pool id, \<open>generatePoolId()\<close> in the source (clock and random digits), is
  an argument. \<open>x || d\<close> is \<open>d\<close> for an absent \<open>x\<close> and for 0.
\<close>

definition tryFormPool :: "string \<Rightarrow> passenger list \<Rightarrow> matchingResult option" where
  "tryFormPool poolId passengers =
     (if length passengers = 0 then None
      else
        (let totalSeats = foldl (\<lambda>sum p. sum + seats_required p) 0 passengers;
             totalLuggage = foldl (\<lambda>sum p. sum + luggage_count p) 0 passengers
         in case matcher_determineVehicleType totalSeats totalLuggage of
              None \<Rightarrow> None
            | Some vt \<Rightarrow>
                (let capacity = getVehicleCapacity vt;
                     constraintMap = foldl (\<lambda>m p. m(pid p \<mapsto> constraintOf p)) Map.empty passengers;
                     pickupLocations = map (\<lambda>p. \<lparr> lat = pickup_lat p, lng = pickup_lng p \<rparr>) passengers;
                     startLocation = calculateCentroid pickupLocations
                 in case optimizeRoute passengers startLocation
                           \<lparr> maxSeats = cap_maxSeats capacity, maxLuggage = cap_maxLuggage capacity,
                             passengerConstraints = constraintMap \<rparr> of
                      None \<Rightarrow> None
                    | Some r \<Rightarrow>
                        (let prices = foldl (\<lambda>m p.
                               (let basePrice' = (case base_price p of
                                                    None \<Rightarrow> 0
                                                  | Some b \<Rightarrow> b);
                                    surge = (if surge_multiplier p = 0 then 1.0 else surge_multiplier p);
                                    discount = 1 - (0.15 * (real (length passengers) - 1));
                                    finalPrice' = basePrice' * surge * max discount 0.50
                                in AList.update (pid p) finalPrice' m)) [] passengers
                         in Some \<lparr> mr_pool_id = poolId,
                                   mr_passengers = map pid passengers,
                                   mr_route = r,
                                   pricing = prices,
                                   feasible = True,
                                   efficiency_score = calculateEfficiencyScore r \<rparr>))))"

section \<open>Persistence\<close>

text \<open>
  The store behind \<open>D1Database\<close>: the tables the functions below touch, the clock
  (\<open>Date.now()\<close> and \<open>CURRENT_TIMESTAMP\<close>, in milliseconds), the list of delays slept so far, and
  \<open>faults\<close>, which says of each statement still to be run whether the store fails on it
  (an empty list: no statement fails). A timestamp column is the epoch milliseconds that its
  text denotes.

  \<open>run()\<close> resolves to a result with \<open>success = true\<close> and the number of rows changed whenever
  the statement was executed, also when it changed no row; a statement that cannot be
  executed rejects, which is \<open>Threw\<close>.
\<close>

datatype exn = D1_ERROR | RangeError | Error string

datatype 'a outcome = Returned 'a | Threw exn

record d1Result =
  success :: bool
  changes :: nat

datatype poolStatus = Forming | Pool_matched | Pool_in_transit | Pool_completed

text \<open>
  A row of \<open>pools\<close>. The columns \<open>id\<close>, \<open>status\<close> and \<open>total_distance\<close> are named \<open>pool_ident\<close>,
  \<open>pool_status\<close> and \<open>pool_total_distance\<close>; \<open>optimized_route\<close> holds what
  \<open>JSON.stringify\<close> keeps of the route: the waypoints, the total distance and the total time;
  the \<open>Map\<close> of the detours is serialised as the empty object.
\<close>

record pool =
  pool_ident :: string
  driver_id :: "string option"
  vehicle_type :: vehicleType
  max_seats :: real
  max_luggage :: real
  current_seats :: real
  current_luggage :: real
  pool_status :: poolStatus
  pool_total_distance :: real
  optimized_route :: "optimizedRoute option"
  created_at :: int
  version :: int

text \<open>A row of \<open>waypoints\<close>; its id, \<open>wp_${poolId}_${i}\<close> in the source, is the pair \<open>(poolId, i)\<close>.\<close>

record waypoint =
  waypoint_id :: "string \<times> nat"
  wp_pool_id :: string
  wp_passenger_id :: string
  sequence_order :: nat
  waypoint_type :: pointType
  wp_lat :: real
  wp_lng :: real

text \<open>A row of \<open>pool_locks\<close>, a table keyed by \<open>pool_id\<close>.\<close>

record poolLock =
  locked_by :: string
  locked_at :: int
  expires_at :: int
  lock_version :: int

record dbState =
  passengers_tbl :: "string \<rightharpoonup> passenger"
  pools_tbl :: "string \<rightharpoonup> pool"
  waypoints_tbl :: "waypoint list"
  pool_locks_tbl :: "string \<rightharpoonup> poolLock"
  clock :: int
  sleeps :: "int list"
  faults :: "bool list"

type_synonym ('a, 's) stateAction = "'s \<Rightarrow> 'a outcome \<times> 's"

type_synonym 'a action = "('a, dbState) stateAction"

definition return :: "'a \<Rightarrow> ('a, 's) stateAction" where
  "return x db = (Returned x, db)"

text \<open>\<open>await m\<close> followed by the rest of the function: an exception of \<open>m\<close> propagates.\<close>

definition andThen ::
  "('a, 's) stateAction \<Rightarrow> ('a \<Rightarrow> ('b, 's) stateAction) \<Rightarrow> ('b, 's) stateAction" where
  "andThen m f db =
     (case m db of
        (Threw e, db') \<Rightarrow> (Threw e, db')
      | (Returned x, db') \<Rightarrow> f x db')"

text \<open>\<open>try { m } catch (error) { h }\<close>.\<close>

definition tryCatch ::
  "('a, 's) stateAction \<Rightarrow> (exn \<Rightarrow> ('a, 's) stateAction) \<Rightarrow> ('a, 's) stateAction" where
  "tryCatch m h db =
     (case m db of
        (Threw e, db') \<Rightarrow> h e db'
      | (Returned x, db') \<Rightarrow> (Returned x, db'))"

text \<open>
  A statement sent to the store: it fails if the store says so, and is executed otherwise.
\<close>

definition storeFails :: "dbState \<Rightarrow> bool" where
  "storeFails db = (case faults db of [] \<Rightarrow> False | fails # rest \<Rightarrow> fails)"

definition run :: "'a action \<Rightarrow> 'a action" where
  "run statement db =
     (if storeFails db then (Threw D1_ERROR, db \<lparr> faults := tl (faults db) \<rparr>)
      else statement (db \<lparr> faults := tl (faults db) \<rparr>))"

text \<open>
  \<open>sleep(ms)\<close>, a promise resolved by \<open>setTimeout(resolve, ms)\<close>: the clock advances by \<open>ms\<close>,
  and not at all for a negative \<open>ms\<close>.
\<close>

definition sleep :: "int \<Rightarrow> unit action" where
  "sleep ms db =
     (Returned (), db \<lparr> clock := clock db + max ms 0, sleeps := sleeps db @ [ms] \<rparr>)"

subsection \<open>The statements of the lock functions\<close>

text \<open>
  \<open>INSERT INTO pool_locks (pool_id, locked_by, expires_at, lock_version) VALUES (?, ?, ?, 1)
  ON CONFLICT(pool_id) DO NOTHING\<close>
\<close>

definition sqlInsertLock :: "string \<Rightarrow> string \<Rightarrow> int \<Rightarrow> d1Result action" where
  "sqlInsertLock poolId lockerId expiresAt =
     run (\<lambda>db. case pool_locks_tbl db poolId of
                  None \<Rightarrow>
                    (Returned \<lparr> success = True, changes = 1 \<rparr>,
                     db \<lparr> pool_locks_tbl := (pool_locks_tbl db)(poolId \<mapsto>
                            \<lparr> locked_by = lockerId, locked_at = clock db,
                              expires_at = expiresAt, lock_version = 1 \<rparr>) \<rparr>)
                | Some existing \<Rightarrow> (Returned \<lparr> success = True, changes = 0 \<rparr>, db))"

text \<open>\<open>SELECT * FROM pool_locks WHERE pool_id = ?\<close>\<close>

definition sqlSelectLock :: "string \<Rightarrow> poolLock option action" where
  "sqlSelectLock poolId = run (\<lambda>db. (Returned (pool_locks_tbl db poolId), db))"

text \<open>
  \<open>UPDATE pool_locks SET locked_by = ?, locked_at = CURRENT_TIMESTAMP, expires_at = ?,
  lock_version = lock_version + 1 WHERE pool_id = ? AND expires_at < datetime('now')\<close>
\<close>

definition sqlClaimLock :: "string \<Rightarrow> int \<Rightarrow> string \<Rightarrow> d1Result action" where
  "sqlClaimLock lockerId expiresAt poolId =
     run (\<lambda>db. case pool_locks_tbl db poolId of
                  None \<Rightarrow> (Returned \<lparr> success = True, changes = 0 \<rparr>, db)
                | Some existing \<Rightarrow>
                    if expires_at existing < clock db then
                      (Returned \<lparr> success = True, changes = 1 \<rparr>,
                       db \<lparr> pool_locks_tbl := (pool_locks_tbl db)(poolId \<mapsto>
                              existing \<lparr> locked_by := lockerId, locked_at := clock db,
                                         expires_at := expiresAt,
                                         lock_version := lock_version existing + 1 \<rparr>) \<rparr>)
                    else (Returned \<lparr> success = True, changes = 0 \<rparr>, db))"

text \<open>\<open>DELETE FROM pool_locks WHERE pool_id = ? AND locked_by = ?\<close>\<close>

definition sqlDeleteLock :: "string \<Rightarrow> string \<Rightarrow> d1Result action" where
  "sqlDeleteLock poolId lockerId =
     run (\<lambda>db. case pool_locks_tbl db poolId of
                  None \<Rightarrow> (Returned \<lparr> success = True, changes = 0 \<rparr>, db)
                | Some existing \<Rightarrow>
                    if locked_by existing = lockerId then
                      (Returned \<lparr> success = True, changes = 1 \<rparr>,
                       db \<lparr> pool_locks_tbl := (pool_locks_tbl db)(poolId := None) \<rparr>)
                    else (Returned \<lparr> success = True, changes = 0 \<rparr>, db))"

section \<open>Concurrency control\<close>

text \<open>\<open>LockOptions\<close>, and \<open>{ ...DEFAULT_LOCK_OPTIONS, ...options }\<close> read field by field.\<close>

record lockOptions =
  ttlSeconds :: "int option"
  maxRetries :: "int option"
  retryDelayMs :: "int option"

definition noOptions :: lockOptions where
  "noOptions = \<lparr> ttlSeconds = None, maxRetries = None, retryDelayMs = None \<rparr>"

definition opts_ttlSeconds :: "lockOptions \<Rightarrow> int" where
  "opts_ttlSeconds options = (case ttlSeconds options of None \<Rightarrow> 30 | Some v \<Rightarrow> v)"

definition opts_maxRetries :: "lockOptions \<Rightarrow> int" where
  "opts_maxRetries options = (case maxRetries options of None \<Rightarrow> 3 | Some v \<Rightarrow> v)"

definition opts_retryDelayMs :: "lockOptions \<Rightarrow> int" where
  "opts_retryDelayMs options = (case retryDelayMs options of None \<Rightarrow> 50 | Some v \<Rightarrow> v)"

text \<open>
  The lock id, \<open>${poolId}_${Date.now()}_${random}\<close> in the source, is the pair of the pool id
  and the clock; the callers only test it for being non-null.
\<close>

type_synonym lockId = "string \<times> int"

text \<open>
  \<open>new Date(t).toISOString()\<close> throws a \<open>RangeError\<close> unless \<open>t\<close> is a time value, one of at most
  8.64e15 milliseconds from the epoch.
\<close>

definition validTime :: "int \<Rightarrow> bool" where
  "validTime t \<longleftrightarrow> \<bar>t\<bar> \<le> 8640000000000000"

text \<open>
  \<open>acquirePoolLock\<close>. The expiry is computed before the \<open>try\<close> block is entered: its
  \<open>RangeError\<close> is not caught.
\<close>

definition acquirePoolLock :: "string \<Rightarrow> string \<Rightarrow> lockOptions \<Rightarrow> lockId option action" where
  "acquirePoolLock poolId lockerId options db =
     (let lockId = (poolId, clock db);
          expiresAt = clock db + opts_ttlSeconds options * 1000
      in if \<not> validTime expiresAt then (Threw RangeError, db)
         else
           tryCatch
             (andThen (sqlInsertLock poolId lockerId expiresAt) (\<lambda>result.
                if success result then return (Some lockId)
                else
                  andThen (sqlSelectLock poolId) (\<lambda>existing db1.
                    case existing of
                      None \<Rightarrow> return None db1
                    | Some row \<Rightarrow>
                        if expires_at row < clock db1 then
                          andThen (sqlClaimLock lockerId expiresAt poolId) (\<lambda>claimResult.
                            if success claimResult then return (Some lockId)
                            else return None) db1
                        else return None db1)))
             (\<lambda>error. return None) db)"

definition releasePoolLock :: "string \<Rightarrow> string \<Rightarrow> bool action" where
  "releasePoolLock poolId lockerId =
     tryCatch
       (andThen (sqlDeleteLock poolId lockerId) (\<lambda>result. return (success result)))
       (\<lambda>error. return False)"

text \<open>
  The retry loop of \<open>withPoolLock\<close>, from \<open>attempt\<close> on. It is not inside a \<open>try\<close> block: an
  exception of \<open>acquirePoolLock\<close> leaves \<open>withPoolLock\<close>.
\<close>

function acquireWithRetries ::
  "string \<Rightarrow> string \<Rightarrow> lockOptions \<Rightarrow> int \<Rightarrow> lockId option action" where
  "acquireWithRetries poolId lockerId options attempt db =
     (if attempt < opts_maxRetries options then
        (case acquirePoolLock poolId lockerId options db of
           (Threw error, db1) \<Rightarrow> (Threw error, db1)
         | (Returned (Some lockId), db1) \<Rightarrow> (Returned (Some lockId), db1)
         | (Returned None, db1) \<Rightarrow>
             acquireWithRetries poolId lockerId options (attempt + 1)
               (if attempt < opts_maxRetries options - 1
                then snd (sleep (opts_retryDelayMs options * (attempt + 1)) db1)
                else db1))
      else (Returned None, db))"
  by pat_completeness auto
termination
  by (relation "measure (\<lambda>(p, l, options, attempt, db). nat (opts_maxRetries options - attempt))") auto

declare acquireWithRetries.simps [simp del]

text \<open>
  \<open>withPoolLock\<close>: \<open>Returned None\<close> is the \<open>return null\<close> after the last attempt;
  the \<open>finally\<close> block runs after the operation has returned and after it has thrown
  (\<open>releasePoolLock\<close> itself never throws, and its result is not read).
\<close>

definition withPoolLock ::
  "string \<Rightarrow> string \<Rightarrow> 'a action \<Rightarrow> lockOptions \<Rightarrow> 'a option action" where
  "withPoolLock poolId lockerId operation options db =
     (case acquireWithRetries poolId lockerId options 0 db of
        (Threw error, db1) \<Rightarrow> (Threw error, db1)
      | (Returned None, db1) \<Rightarrow> (Returned None, db1)
      | (Returned (Some lockId), db1) \<Rightarrow>
          (case operation db1 of
             (Returned result, db2) \<Rightarrow>
               (Returned (Some result), snd (releasePoolLock poolId lockerId db2))
           | (Threw error, db2) \<Rightarrow>
               (Threw error, snd (releasePoolLock poolId lockerId db2))))"

section \<open>Dispatch service\<close>

subsection \<open>The statements of the dispatch service\<close>

text \<open>
  The schema declares \<open>waypoints.pool_id\<close> and \<open>waypoints.passenger_id\<close> as foreign keys with
  \<open>ON DELETE CASCADE\<close>, and the ids as primary keys: an insert with a taken id or a missing
  parent row fails, and deleting a pool deletes its waypoints.
\<close>

text \<open>\<open>SELECT * FROM passengers WHERE id = ?\<close>\<close>

definition sqlSelectPassenger :: "string \<Rightarrow> passenger option action" where
  "sqlSelectPassenger passengerId = run (\<lambda>db. (Returned (passengers_tbl db passengerId), db))"

text \<open>
  \<open>UPDATE passengers SET status = 'cancelled', cancelled_at = CURRENT_TIMESTAMP,
  cancellation_reason = ? WHERE id = ?\<close>
\<close>

definition sqlCancelPassenger :: "string \<Rightarrow> string \<Rightarrow> d1Result action" where
  "sqlCancelPassenger reason passengerId =
     run (\<lambda>db. case passengers_tbl db passengerId of
                  None \<Rightarrow> (Returned \<lparr> success = True, changes = 0 \<rparr>, db)
                | Some p \<Rightarrow>
                    (Returned \<lparr> success = True, changes = 1 \<rparr>,
                     db \<lparr> passengers_tbl := (passengers_tbl db)(passengerId \<mapsto>
                            p \<lparr> status := Cancelled, cancelled_at := Some (clock db),
                                cancellation_reason := Some reason \<rparr>) \<rparr>))"

text \<open>The same statement with \<open>pool_id = NULL\<close> added to the \<open>SET\<close> clause.\<close>

definition sqlCancelPooledPassenger :: "string \<Rightarrow> string \<Rightarrow> d1Result action" where
  "sqlCancelPooledPassenger reason passengerId =
     run (\<lambda>db. case passengers_tbl db passengerId of
                  None \<Rightarrow> (Returned \<lparr> success = True, changes = 0 \<rparr>, db)
                | Some p \<Rightarrow>
                    (Returned \<lparr> success = True, changes = 1 \<rparr>,
                     db \<lparr> passengers_tbl := (passengers_tbl db)(passengerId \<mapsto>
                            p \<lparr> status := Cancelled, cancelled_at := Some (clock db),
                                cancellation_reason := Some reason, pool_id := None \<rparr>) \<rparr>))"

text \<open>
  \<open>UPDATE pools SET current_seats = current_seats - ?, current_luggage = current_luggage - ?,
  version = version + 1 WHERE id = ?\<close>
\<close>

definition sqlReleaseCapacity :: "real \<Rightarrow> real \<Rightarrow> string \<Rightarrow> d1Result action" where
  "sqlReleaseCapacity seats luggage poolId =
     run (\<lambda>db. case pools_tbl db poolId of
                  None \<Rightarrow> (Returned \<lparr> success = True, changes = 0 \<rparr>, db)
                | Some pl \<Rightarrow>
                    (Returned \<lparr> success = True, changes = 1 \<rparr>,
                     db \<lparr> pools_tbl := (pools_tbl db)(poolId \<mapsto>
                            pl \<lparr> current_seats := current_seats pl - seats,
                                 current_luggage := current_luggage pl - luggage,
                                 version := version pl + 1 \<rparr>) \<rparr>))"

text \<open>\<open>DELETE FROM waypoints WHERE passenger_id = ?\<close>\<close>

definition sqlDeleteWaypointsOf :: "string \<Rightarrow> d1Result action" where
  "sqlDeleteWaypointsOf passengerId =
     run (\<lambda>db. (Returned \<lparr> success = True,
                              changes = length (filter (\<lambda>w. wp_passenger_id w = passengerId)
                                                  (waypoints_tbl db)) \<rparr>,
                  db \<lparr> waypoints_tbl := filter (\<lambda>w. wp_passenger_id w \<noteq> passengerId)
                                             (waypoints_tbl db) \<rparr>))"

text \<open>\<open>SELECT current_seats FROM pools WHERE id = ?\<close>\<close>

definition sqlSelectPool :: "string \<Rightarrow> pool option action" where
  "sqlSelectPool poolId = run (\<lambda>db. (Returned (pools_tbl db poolId), db))"

text \<open>\<open>DELETE FROM pools WHERE id = ?\<close>\<close>

definition sqlDeletePool :: "string \<Rightarrow> d1Result action" where
  "sqlDeletePool poolId =
     run (\<lambda>db. case pools_tbl db poolId of
                  None \<Rightarrow> (Returned \<lparr> success = True, changes = 0 \<rparr>, db)
                | Some pl \<Rightarrow>
                    (Returned \<lparr> success = True, changes = 1 \<rparr>,
                     db \<lparr> pools_tbl := (pools_tbl db)(poolId := None),
                          waypoints_tbl := filter (\<lambda>w. wp_pool_id w \<noteq> poolId)
                                             (waypoints_tbl db) \<rparr>))"

text \<open>
  \<open>INSERT INTO pools (id, vehicle_type, max_seats, max_luggage, current_seats,
  current_luggage, status, total_distance, optimized_route, version)
  VALUES (?, ?, ?, ?, ?, ?, 'forming', ?, ?, 0)\<close>
\<close>

definition sqlInsertPool ::
  "string \<Rightarrow> vehicleType \<Rightarrow> real \<Rightarrow> real \<Rightarrow> real \<Rightarrow> real \<Rightarrow> real \<Rightarrow> optimizedRoute \<Rightarrow>
   d1Result action" where
  "sqlInsertPool poolId vt maxS maxL curS curL totalDist r =
     run (\<lambda>db. case pools_tbl db poolId of
                  Some existing \<Rightarrow> (Threw D1_ERROR, db)
                | None \<Rightarrow>
                    (Returned \<lparr> success = True, changes = 1 \<rparr>,
                     db \<lparr> pools_tbl := (pools_tbl db)(poolId \<mapsto>
                            \<lparr> pool_ident = poolId, driver_id = None, vehicle_type = vt,
                              max_seats = maxS, max_luggage = maxL,
                              current_seats = curS, current_luggage = curL,
                              pool_status = Forming, pool_total_distance = totalDist,
                              optimized_route = Some (r \<lparr> detours := [] \<rparr>),
                              created_at = clock db,
                              version = 0 \<rparr>) \<rparr>))"

text \<open>
  \<open>UPDATE passengers SET status = 'matched', pool_id = ?, final_price = ?,
  matched_at = CURRENT_TIMESTAMP WHERE id = ?\<close>
\<close>

definition sqlMatchPassenger :: "string \<Rightarrow> real \<Rightarrow> string \<Rightarrow> d1Result action" where
  "sqlMatchPassenger poolId price passengerId =
     run (\<lambda>db. case passengers_tbl db passengerId of
                  None \<Rightarrow> (Returned \<lparr> success = True, changes = 0 \<rparr>, db)
                | Some p \<Rightarrow>
                    (Returned \<lparr> success = True, changes = 1 \<rparr>,
                     db \<lparr> passengers_tbl := (passengers_tbl db)(passengerId \<mapsto>
                            p \<lparr> status := Matched, pool_id := Some poolId,
                                final_price := Some price, matched_at := Some (clock db) \<rparr>) \<rparr>))"

text \<open>
  \<open>INSERT INTO waypoints (id, pool_id, passenger_id, sequence_order, waypoint_type, lat, lng)
  VALUES (?, ?, ?, ?, ?, ?, ?)\<close>
\<close>

definition sqlInsertWaypoint :: "waypoint \<Rightarrow> d1Result action" where
  "sqlInsertWaypoint w =
     run (\<lambda>db. if waypoint_id w \<in> set (map waypoint_id (waypoints_tbl db))
                    \<or> pools_tbl db (wp_pool_id w) = None
                    \<or> passengers_tbl db (wp_passenger_id w) = None
                 then (Threw D1_ERROR, db)
                 else (Returned \<lparr> success = True, changes = 1 \<rparr>,
                       db \<lparr> waypoints_tbl := waypoints_tbl db @ [w] \<rparr>))"

subsection \<open>Committing the proposals of a matching cycle\<close>

text \<open>\<open>determineVehicleType(passengerCount)\<close> of the dispatch service (\<open>services/ride-pooling.ts\<close>).\<close>

definition determineVehicleType :: "nat \<Rightarrow> vehicleType" where
  "determineVehicleType passengerCount =
     (if passengerCount \<le> 2 then Sedan
      else if passengerCount \<le> 4 then Suv
      else Van)"

record matchTotals =
  matched :: nat
  pools_created :: nat

text \<open>
  The counters \<open>matchedCount\<close> and \<open>poolsCreated\<close> are local variables that keep their value
  when a statement throws, so they are part of the state of the loop.
\<close>

type_synonym cycleState = "matchTotals \<times> dbState"

definition onDb :: "'a action \<Rightarrow> ('a, cycleState) stateAction" where
  "onDb m st = (case m (snd st) of (r, db') \<Rightarrow> (r, (fst st, db')))"

definition countPool :: "(unit, cycleState) stateAction" where
  "countPool st = (Returned (), (fst st \<lparr> pools_created := pools_created (fst st) + 1 \<rparr>, snd st))"

definition countMatched :: "(unit, cycleState) stateAction" where
  "countMatched st = (Returned (), (fst st \<lparr> matched := matched (fst st) + 1 \<rparr>, snd st))"

text \<open>The loop \<open>for (const passengerId of result.passengers)\<close>.\<close>

fun updatePassengers ::
  "string \<Rightarrow> (string \<times> real) list \<Rightarrow> string list \<Rightarrow> (unit, cycleState) stateAction" where
  "updatePassengers poolId prices [] = return ()"
| "updatePassengers poolId prices (passengerId # rest) =
     (let finalPrice' = (case map_of prices passengerId of None \<Rightarrow> 0 | Some v \<Rightarrow> v)
      in andThen (onDb (sqlMatchPassenger poolId finalPrice' passengerId)) (\<lambda>r.
         andThen countMatched (\<lambda>u.
         updatePassengers poolId prices rest)))"

text \<open>The loop \<open>for (let i = 0; i < result.route.waypoints.length; i++)\<close>, from index \<open>i\<close> on.\<close>

fun insertWaypoints :: "string \<Rightarrow> nat \<Rightarrow> routePoint list \<Rightarrow> (unit, cycleState) stateAction" where
  "insertWaypoints poolId i [] = return ()"
| "insertWaypoints poolId i (w # rest) =
     andThen (onDb (sqlInsertWaypoint
                \<lparr> waypoint_id = (poolId, i), wp_pool_id = poolId,
                  wp_passenger_id = passenger_id w, sequence_order = i,
                  waypoint_type = point_type w, wp_lat = lat w, wp_lng = lng w \<rparr>)) (\<lambda>r.
     insertWaypoints poolId (i + 1) rest)"

text \<open>
  The body of the loop over \<open>matchingResults\<close>; \<open>passengers\<close> is \<open>passengers.results\<close>, the
  pending passengers that were read at the start of the cycle.
\<close>

definition commitProposal :: "passenger list \<Rightarrow> matchingResult \<Rightarrow> cycleState \<Rightarrow> cycleState" where
  "commitProposal passengers result st =
     (if \<not> feasible result then st
      else
        snd (tryCatch
          (let poolId = mr_pool_id result;
               vehicleType' = determineVehicleType (length (mr_passengers result));
               capacity = getVehicleCapacity vehicleType';
               luggage = foldl (\<lambda>sum p'.
                           sum + (case List.find (\<lambda>p. pid p = p') passengers of
                                    None \<Rightarrow> 0
                                  | Some p \<Rightarrow> luggage_count p)) 0 (mr_passengers result)
           in andThen (onDb (sqlInsertPool poolId vehicleType'
                               (cap_maxSeats capacity) (cap_maxLuggage capacity)
                               (real (length (mr_passengers result))) luggage
                               (total_distance (mr_route result)) (mr_route result))) (\<lambda>poolResult.
                if \<not> success poolResult then return ()
                else
                  andThen countPool (\<lambda>u.
                  andThen (updatePassengers poolId (pricing result) (mr_passengers result)) (\<lambda>u'.
                  insertWaypoints poolId 0 (waypoints (mr_route result))))))
          (\<lambda>error. return ()) st))"

text \<open>
  The loop of \<open>matchPendingPassengers\<close> over the results of the matcher, and the totals that
  the function returns.
\<close>

definition processMatchingResults ::
  "passenger list \<Rightarrow> matchingResult list \<Rightarrow> dbState \<Rightarrow> matchTotals \<times> dbState" where
  "processMatchingResults passengers results db =
     foldl (\<lambda>st result. commitProposal passengers result st)
       (\<lparr> matched = 0, pools_created = 0 \<rparr>, db) results"

subsection \<open>Cancellation\<close>

record cancelResult =
  cancel_success :: bool
  refund_amount :: "real option"

definition cancelFailed :: cancelResult where
  "cancelFailed = \<lparr> cancel_success = False, refund_amount = None \<rparr>"

definition cancelDone :: cancelResult where
  "cancelDone = \<lparr> cancel_success = True, refund_amount = None \<rparr>"

text \<open>\<open>reason || 'User cancelled'\<close>\<close>

definition reasonOrDefault :: "string option \<Rightarrow> string" where
  "reasonOrDefault reason =
     (case reason of None \<Rightarrow> ''User cancelled''
      | Some r \<Rightarrow> if r = [] then ''User cancelled'' else r)"

text \<open>The operation that \<open>cancelRideRequest\<close> runs under the lock of the pool.\<close>

definition cancelInPool :: "passenger \<Rightarrow> string \<Rightarrow> string \<Rightarrow> string option \<Rightarrow> cancelResult action" where
  "cancelInPool p poolId passengerId reason =
     andThen (sqlCancelPooledPassenger (reasonOrDefault reason) passengerId) (\<lambda>r1.
     andThen (sqlReleaseCapacity (seats_required p) (luggage_count p) poolId) (\<lambda>r2.
     andThen (sqlDeleteWaypointsOf passengerId) (\<lambda>r3.
     andThen (sqlSelectPool poolId) (\<lambda>pool'.
       case pool' of
         None \<Rightarrow> return cancelDone
       | Some pl \<Rightarrow>
           if current_seats pl \<le> 0 then
             andThen (sqlDeletePool poolId) (\<lambda>r4. return cancelDone)
           else return cancelDone))))"

text \<open>The cancellation of a passenger that is in no pool: one statement.\<close>

definition cancelDirectly :: "string \<Rightarrow> string option \<Rightarrow> cancelResult action" where
  "cancelDirectly passengerId reason =
     andThen (sqlCancelPassenger (reasonOrDefault reason) passengerId) (\<lambda>r.
     return cancelDone)"

text \<open>
  \<open>cancelRideRequest\<close>. The request id, \<open>generateRequestId()\<close> in the source (clock and random
  digits), is an argument. \<open>!passenger.pool_id\<close> holds for an absent and for an empty pool id;
  \<open>result || { success: false }\<close> is the failure for the null of \<open>withPoolLock\<close>.
\<close>

definition cancelRideRequest :: "string \<Rightarrow> string \<Rightarrow> string option \<Rightarrow> cancelResult action" where
  "cancelRideRequest requestId passengerId reason =
     andThen (sqlSelectPassenger passengerId) (\<lambda>row.
       case row of
         None \<Rightarrow> return cancelFailed
       | Some p \<Rightarrow>
           if status p = Cancelled \<or> status p = Completed then return cancelFailed
           else
             (case pool_id p of
                None \<Rightarrow> cancelDirectly passengerId reason
              | Some poolId \<Rightarrow>
                  if poolId = [] \<or> status p = Pending then cancelDirectly passengerId reason
                  else
                    andThen (withPoolLock poolId requestId
                               (cancelInPool p poolId passengerId reason) noOptions) (\<lambda>result.
                      case result of
                        None \<Rightarrow> return cancelFailed
                      | Some r \<Rightarrow> return r)))"

text \<open>
  The delays asked for after the first \<open>k\<close> attempts without a handle: \<open>retryDelayMs\<close> times
  1, 2, ..., \<open>k\<close>.
\<close>

definition retryDelays :: "lockOptions \<Rightarrow> nat \<Rightarrow> int list" where
  "retryDelays options k = map (\<lambda>j. opts_retryDelayMs options * int j) [1..<Suc k]"

text \<open>The store after these delays, with the faults \<open>rest\<close> still to come.\<close>

definition afterDelays :: "lockOptions \<Rightarrow> nat \<Rightarrow> bool list \<Rightarrow> dbState \<Rightarrow> dbState" where
  "afterDelays options k rest db =
     db \<lparr> clock := clock db + sum_list (map (\<lambda>ms. max ms 0) (retryDelays options k)),
          sleeps := sleeps db @ retryDelays options k,
          faults := rest \<rparr>"

text \<open>The expiry that the attempt after these delays computes.\<close>

definition expiryAfter :: "lockOptions \<Rightarrow> nat \<Rightarrow> dbState \<Rightarrow> int" where
  "expiryAfter options k db =
     clock db + sum_list (map (\<lambda>ms. max ms 0) (retryDelays options k))
       + opts_ttlSeconds options * 1000"

section \<open>Sample requests and stores\<close>

text \<open>
  A pending request on the meridian of longitude 0, with two pieces of luggage, one seat and
  the default detour tolerance of 15 minutes.
\<close>

definition sampleRequest :: "string \<Rightarrow> real \<Rightarrow> real \<Rightarrow> int \<Rightarrow> passenger" where
  "sampleRequest name pickupLat dropoffLat requested =
     \<lparr> pid = name, user_id = ''user_001'', pickup_lat = pickupLat, pickup_lng = 0,
       dropoff_lat = dropoffLat, dropoff_lng = 0, luggage_count = 2, seats_required = 1,
       max_detour_minutes = 15, detour_tolerance = 1.5, status = Pending, pool_id = None,
       requested_at = requested, matched_at = None, completed_at = None, cancelled_at = None,
       cancellation_reason = None, base_price = Some 10, final_price = None,
       surge_multiplier = 1 \<rparr>"

text \<open>
  Two requests of one cluster: A rides north from latitude 0 to 0.04; B is picked up on A's
  way, at 0.02, and rides back south to 0.01.
\<close>

definition passengerA :: passenger where
  "passengerA = sampleRequest ''pass_A'' 0 0.04 1000"

definition passengerB :: passenger where
  "passengerB = sampleRequest ''pass_B'' 0.02 0.01 2000"

definition pendingStore :: dbState where
  "pendingStore =
     \<lparr> passengers_tbl = [''pass_A'' \<mapsto> passengerA, ''pass_B'' \<mapsto> passengerB],
       pools_tbl = Map.empty, waypoints_tbl = [], pool_locks_tbl = Map.empty,
       clock = 5000, sleeps = [], faults = [] \<rparr>"

text \<open>Two requests with the same pickup point; C was made after D.\<close>

definition passengerC :: passenger where
  "passengerC = sampleRequest ''pass_C'' 0 0.01 2000"

definition passengerD :: passenger where
  "passengerD = sampleRequest ''pass_D'' 0 0.02 1000"

text \<open>The constraints that \<open>tryFormPool\<close> builds for C and D.\<close>

definition constraintsCD :: routeConstraints where
  "constraintsCD =
     \<lparr> maxSeats = 6, maxLuggage = 5,
       passengerConstraints = [''pass_C'' \<mapsto> constraintOf passengerC,
                               ''pass_D'' \<mapsto> constraintOf passengerD] \<rparr>"

text \<open>A store in which request \<open>req_A\<close> holds the lock of \<open>pool_1\<close> for another 29 seconds.\<close>

definition lockedStore :: dbState where
  "lockedStore =
     \<lparr> passengers_tbl = Map.empty, pools_tbl = Map.empty, waypoints_tbl = [],
       pool_locks_tbl = [''pool_1'' \<mapsto> \<lparr> locked_by = ''req_A'', locked_at = 1000,
                                            expires_at = 31000, lock_version = 1 \<rparr>],
       clock = 2000, sleeps = [], faults = [] \<rparr>"

text \<open>A store with one cancelled request.\<close>

definition cancelledStore :: dbState where
  "cancelledStore =
     \<lparr> passengers_tbl = [''pass_A'' \<mapsto> passengerA \<lparr> status := Cancelled \<rparr>],
       pools_tbl = Map.empty, waypoints_tbl = [], pool_locks_tbl = Map.empty,
       clock = 5000, sleeps = [], faults = [] \<rparr>"

text \<open>
  A solo ride of 4.02 km and 8.04 minutes (30 km/h) in a sedan, on a Wednesday at noon, in
  snow; the distance and the time are doubles.
\<close>

definition snowRide :: pricingFactors where
  "snowRide =
     \<lparr> distance = 4.01953125, estimatedTime = 8.0390625, vehicleType = Sedan, timeOfDay = 12,
       dayOfWeek = 3, weatherCondition = Some Snow, surgeZone = None, poolSize = Some 1,
       detourMinutes = None \<rparr>"

text \<open>A ride of 33 minutes in a van, shared by two.\<close>

definition vanRide :: pricingFactors where
  "vanRide =
     \<lparr> distance = 0, estimatedTime = 33, vehicleType = Van, timeOfDay = 12, dayOfWeek = 3,
       weatherCondition = None, surgeZone = None, poolSize = Some 2, detourMinutes = None \<rparr>"

text \<open>A stop of a route on the meridian of longitude 0, as \<open>optimizeRoute\<close> builds it.\<close>

definition stop :: "string \<Rightarrow> pointType \<Rightarrow> real \<Rightarrow> routePoint" where
  "stop name kind latitude =
     \<lparr> lat = latitude, lng = 0, passenger_id = name, point_type = kind, time_window = Some 15 \<rparr>"

text \<open>
  The route and the proposal that the matcher forms from A and B (\<open>tryFormPool_AB\<close> below):
  the stop at which B leaves the vehicle comes before the stop at which B enters it.
\<close>

definition routeAB :: optimizedRoute where
  "routeAB =
     \<lparr> waypoints = [stop ''pass_A'' Pickup 0, stop ''pass_B'' Dropoff 0.01,
                     stop ''pass_B'' Pickup 0.02, stop ''pass_A'' Dropoff 0.04],
       total_distance = 6371 * (0.04 * (pi / 180)),
       total_time = estimateTravelTime (6371 * (0.04 * (pi / 180))),
       detours = [(''pass_B'', 0), (''pass_A'', 0)] \<rparr>"

definition proposalAB :: matchingResult where
  "proposalAB =
     \<lparr> mr_pool_id = ''pool_1'', mr_passengers = [''pass_A'', ''pass_B''], mr_route = routeAB,
       pricing = [(''pass_A'', 8.5), (''pass_B'', 8.5)], feasible = True,
       efficiency_score = Some 1.25 \<rparr>"

text \<open>
  The constraints that \<open>tryFormPool\<close> builds for A and B (their luggage takes an SUV), and the
  route of the greedy construction from the centroid of their pickups.
\<close>

definition constraintsAB :: routeConstraints where
  "constraintsAB =
     \<lparr> maxSeats = 6, maxLuggage = 5,
       passengerConstraints = [''pass_A'' \<mapsto> constraintOf passengerA,
                               ''pass_B'' \<mapsto> constraintOf passengerB] \<rparr>"

definition greedyAB :: optimizedRoute where
  "greedyAB =
     \<lparr> waypoints = [stop ''pass_A'' Pickup 0, stop ''pass_B'' Pickup 0.02,
                     stop ''pass_B'' Dropoff 0.01, stop ''pass_A'' Dropoff 0.04],
       total_distance = 6371 * (0.07 * (pi / 180)),
       total_time = estimateTravelTime (6371 * (0.07 * (pi / 180))),
       detours = [(''pass_B'', 0),
                  (''pass_A'', estimateTravelTime (6371 * (0.02 * (pi / 180))))] \<rparr>"

section \<open>Properties of the doubles\<close>

lemma roundTiesToEven_cases:
  "roundTiesToEven y = \<lfloor>y\<rfloor> \<or> roundTiesToEven y = \<lfloor>y\<rfloor> + 1"
  by (simp add: roundTiesToEven_def Let_def)

lemma roundTiesToEven_near: "\<bar>of_int (roundTiesToEven y) - y\<bar> \<le> 1 / 2"
  unfolding roundTiesToEven_def Let_def by (auto simp: abs_le_iff)

lemma roundTiesToEven_of_int [simp]: "roundTiesToEven (of_int k) = k"
  by (simp add: roundTiesToEven_def)

lemma roundTiesToEven_mono:
  assumes "x \<le> y"
  shows "roundTiesToEven x \<le> roundTiesToEven y"
proof (rule ccontr)
  assume "\<not> roundTiesToEven x \<le> roundTiesToEven y"
  then have gt: "roundTiesToEven y + 1 \<le> roundTiesToEven x" by simp
  have nx: "of_int (roundTiesToEven x) - 1 / 2 \<le> x"
    using roundTiesToEven_near [of x] by linarith
  have ny: "y \<le> of_int (roundTiesToEven y) + 1 / 2"
    using roundTiesToEven_near [of y] by linarith
  from gt have "real_of_int (roundTiesToEven y) + 1 \<le> real_of_int (roundTiesToEven x)"
    by linarith
  with nx ny assms have xy: "x = y" and "real_of_int (roundTiesToEven x) = real_of_int (roundTiesToEven y) + 1"
    by linarith+
  with gt show False by simp
qed

lemma roundTiesToEven_ge: "of_int k \<le> y \<Longrightarrow> k \<le> roundTiesToEven y"
  using roundTiesToEven_mono [of "of_int k" y] by simp

lemma roundTiesToEven_le: "y \<le> of_int k \<Longrightarrow> roundTiesToEven y \<le> k"
  using roundTiesToEven_mono [of y "of_int k"] by simp

lemma ulp_pos [simp]: "0 < ulp x"
  by (simp add: ulp_def)

lemma binade:
  assumes "x \<noteq> 0"
  shows "2 powr of_int \<lfloor>log 2 \<bar>x\<bar>\<rfloor> \<le> \<bar>x\<bar>" "\<bar>x\<bar> < 2 powr (of_int \<lfloor>log 2 \<bar>x\<bar>\<rfloor> + 1)"
proof -
  have pos: "0 < \<bar>x\<bar>" using assms by simp
  show "2 powr of_int \<lfloor>log 2 \<bar>x\<bar>\<rfloor> \<le> \<bar>x\<bar>"
    using le_log_iff [of 2 "\<bar>x\<bar>" "of_int \<lfloor>log 2 \<bar>x\<bar>\<rfloor>"] pos by simp
  have "log 2 \<bar>x\<bar> < of_int \<lfloor>log 2 \<bar>x\<bar>\<rfloor> + 1" by linarith
  then show "\<bar>x\<bar> < 2 powr (of_int \<lfloor>log 2 \<bar>x\<bar>\<rfloor> + 1)"
    using log_less_iff [of 2 "\<bar>x\<bar>" "of_int \<lfloor>log 2 \<bar>x\<bar>\<rfloor> + 1"] pos by linarith
qed

lemma floor_log_unique:
  assumes "2 powr of_int e \<le> \<bar>x\<bar>" "\<bar>x\<bar> < 2 powr (of_int e + 1)"
  shows "\<lfloor>log 2 \<bar>x\<bar>\<rfloor> = e"
proof -
  have pos: "0 < \<bar>x\<bar>" using assms(1) by (smt (verit) powr_gt_zero)
  have "of_int e \<le> log 2 \<bar>x\<bar>" using assms(1) pos by (simp add: le_log_iff)
  moreover have "log 2 \<bar>x\<bar> < of_int e + 1" using assms(2) pos by (simp add: log_less_iff)
  ultimately show ?thesis by linarith
qed

lemma ulp_binade:
  assumes "2 powr of_int e \<le> \<bar>x\<bar>" "\<bar>x\<bar> < 2 powr (of_int e + 1)"
  shows "ulp x = 2 powr (of_int e - 52)"
  using floor_log_unique [OF assms] by (simp add: ulp_def)

lemma ulp_bounds:
  assumes "x \<noteq> 0"
  shows "2 ^ 52 * ulp x \<le> \<bar>x\<bar>" "\<bar>x\<bar> < 2 ^ 53 * ulp x"
proof -
  have a: "2 ^ 52 * ulp x = 2 powr of_int \<lfloor>log 2 \<bar>x\<bar>\<rfloor>"
    unfolding ulp_def by (simp add: powr_diff)
  have b: "2 ^ 53 * ulp x = 2 powr (of_int \<lfloor>log 2 \<bar>x\<bar>\<rfloor> + 1)"
    unfolding ulp_def by (simp add: powr_diff powr_add)
  show "2 ^ 52 * ulp x \<le> \<bar>x\<bar>" "\<bar>x\<bar> < 2 ^ 53 * ulp x"
    using binade [OF assms] a b by simp_all
qed


lemma fl_0 [simp]: "fl 0 = 0"
  by (simp add: fl_def)

lemma ulp_uminus [simp]: "ulp (- x) = ulp x"
  by (simp add: ulp_def)

lemma fl_uminus: "fl (- x) = - fl x"
  by (simp add: fl_def)

lemma fl_pos: "0 < x \<Longrightarrow> fl x = ulp x * of_int (roundTiesToEven (x / ulp x))"
  by (simp add: fl_def)

lemma mantissa_bounds:
  assumes "0 < x"
  shows "2 ^ 52 \<le> roundTiesToEven (x / ulp x)" "roundTiesToEven (x / ulp x) \<le> 2 ^ 53"
proof -
  have x: "x \<noteq> 0" "\<bar>x\<bar> = x" using assms by simp_all
  have "of_int (2 ^ 52) \<le> x / ulp x"
    using ulp_bounds(1) [OF x(1)] x(2) by (simp add: pos_le_divide_eq)
  then show "2 ^ 52 \<le> roundTiesToEven (x / ulp x)" by (rule roundTiesToEven_ge)
  have "x / ulp x \<le> of_int (2 ^ 53)"
    using ulp_bounds(2) [OF x(1)] x(2) by (simp add: pos_divide_le_eq)
  then show "roundTiesToEven (x / ulp x) \<le> 2 ^ 53" by (rule roundTiesToEven_le)
qed

lemma fl_pos_bounds:
  assumes "0 < x"
  shows "2 ^ 52 * ulp x \<le> fl x" "fl x \<le> 2 ^ 53 * ulp x"
proof -
  have "(2 ^ 52 :: real) \<le> of_int (roundTiesToEven (x / ulp x))"
    using mantissa_bounds(1) [OF assms] by (metis of_int_le_iff of_int_numeral of_int_power)
  then show "2 ^ 52 * ulp x \<le> fl x"
    using fl_pos [OF assms] ulp_pos [of x] by (simp add: mult.commute)
  have "of_int (roundTiesToEven (x / ulp x)) \<le> (2 ^ 53 :: real)"
    using mantissa_bounds(2) [OF assms] by (metis of_int_le_iff of_int_numeral of_int_power)
  then show "fl x \<le> 2 ^ 53 * ulp x"
    using fl_pos [OF assms] ulp_pos [of x] by (simp add: mult.commute)
qed

lemma fl_gt_0: "0 < x \<Longrightarrow> 0 < fl x"
  using fl_pos_bounds(1) [of x] ulp_pos [of x]
  by (smt (verit) mult_pos_pos zero_less_numeral zero_less_power)

lemma fl_mono_pos:
  assumes "0 < x" "x \<le> y"
  shows "fl x \<le> fl y"
proof -
  have y: "0 < y" using assms by simp
  have le: "\<lfloor>log 2 \<bar>x\<bar>\<rfloor> \<le> \<lfloor>log 2 \<bar>y\<bar>\<rfloor>"
    using assms by (intro floor_mono) simp
  show ?thesis
  proof (cases "\<lfloor>log 2 \<bar>x\<bar>\<rfloor> = \<lfloor>log 2 \<bar>y\<bar>\<rfloor>")
    case True
    then have u: "ulp x = ulp y" by (simp add: ulp_def)
    have "x / ulp y \<le> y / ulp y"
      using assms(2) less_imp_le [OF ulp_pos [of y]] by (intro divide_right_mono)
    then have "roundTiesToEven (x / ulp y) \<le> roundTiesToEven (y / ulp y)"
      by (rule roundTiesToEven_mono)
    then have "ulp y * of_int (roundTiesToEven (x / ulp y))
                 \<le> ulp y * of_int (roundTiesToEven (y / ulp y))"
      using ulp_pos [of y] by simp
    then show ?thesis using fl_pos [OF assms(1)] fl_pos [OF y] u by simp
  next
    case False
    with le have "of_int \<lfloor>log 2 \<bar>x\<bar>\<rfloor> + (1 :: real) \<le> of_int \<lfloor>log 2 \<bar>y\<bar>\<rfloor>"
      by linarith
    then have "(2 :: real) powr (of_int \<lfloor>log 2 \<bar>x\<bar>\<rfloor> + 1) \<le> 2 powr of_int \<lfloor>log 2 \<bar>y\<bar>\<rfloor>"
      by simp
    moreover have "2 ^ 53 * ulp x = 2 powr (of_int \<lfloor>log 2 \<bar>x\<bar>\<rfloor> + 1)"
      unfolding ulp_def by (simp add: powr_diff powr_add)
    moreover have "2 ^ 52 * ulp y = 2 powr of_int \<lfloor>log 2 \<bar>y\<bar>\<rfloor>"
      unfolding ulp_def by (simp add: powr_diff)
    ultimately show ?thesis
      using fl_pos_bounds(2) [OF assms(1)] fl_pos_bounds(1) [OF y] by linarith
  qed
qed

lemma fl_mono:
  assumes "x \<le> y"
  shows "fl x \<le> fl y"
proof -
  consider "0 < x" | "x = 0" "y = 0" | "x \<le> 0" "0 < y" | "x < 0" "y = 0" | "y < 0"
    using assms by linarith
  then show ?thesis
  proof cases
    case 1
    then show ?thesis using assms by (rule fl_mono_pos)
  next
    case 2
    then show ?thesis by simp
  next
    case 3
    have "fl x \<le> 0"
    proof (cases "x = 0")
      case True
      then show ?thesis by simp
    next
      case False
      with 3 have "0 < - x" by simp
      then have "0 < fl (- x)" by (rule fl_gt_0)
      then show ?thesis by (simp add: fl_uminus)
    qed
    moreover have "0 < fl y" using 3 by (simp add: fl_gt_0)
    ultimately show ?thesis by simp
  next
    case 4
    then have "0 < fl (- x)" by (simp add: fl_gt_0)
    then show ?thesis using 4 by (simp add: fl_uminus)
  next
    case 5
    then have "0 < - y" "- y \<le> - x" using assms by simp_all
    then have "fl (- y) \<le> fl (- x)" by (rule fl_mono_pos)
    then show ?thesis by (simp add: fl_uminus)
  qed
qed

lemma ulp_scale:
  assumes "x \<noteq> 0"
  shows "ulp (x * 2 powr of_int j) = ulp x * 2 powr of_int j"
proof -
  have "log 2 \<bar>x * 2 powr of_int j\<bar> = log 2 \<bar>x\<bar> + of_int j"
    using assms by (simp add: abs_mult log_mult)
  then have "\<lfloor>log 2 \<bar>x * 2 powr of_int j\<bar>\<rfloor> = \<lfloor>log 2 \<bar>x\<bar>\<rfloor> + j"
    by simp
  then show ?thesis
    unfolding ulp_def by (simp add: powr_add powr_diff)
qed

lemma fl_scale: "fl (x * 2 powr of_int j) = fl x * 2 powr of_int j"
proof (cases "x = 0")
  case True
  then show ?thesis by simp
next
  case False
  have "sgn (x * 2 powr of_int j) = sgn x"
    by (simp add: sgn_mult)
  moreover have "\<bar>x * 2 powr of_int j\<bar> / (ulp x * 2 powr of_int j) = \<bar>x\<bar> / ulp x"
    by (simp add: abs_mult)
  ultimately show ?thesis
    unfolding fl_def ulp_scale [OF False] by simp
qed

lemma fl_of_int_pos:
  assumes "0 < m" "m < 2 ^ 53"
  shows "fl (of_int m) = of_int m"
proof -
  let ?x = "of_int m :: real"
  let ?e = "\<lfloor>log 2 \<bar>?x\<bar>\<rfloor>"
  have x: "0 < ?x" "\<bar>?x\<bar> = ?x" "1 \<le> ?x" using assms(1) by simp_all
  have "?x < 2 ^ 53" using assms(2) by (metis of_int_less_iff of_int_numeral of_int_power)
  then have "log 2 ?x < 53"
    using x(1) log_less_iff [of 2 ?x 53] by simp
  then have e52: "?e \<le> 52" using x(2) by (simp add: floor_le_iff)
  have "0 \<le> log 2 ?x" using x(3) by simp
  then have e0: "0 \<le> ?e" using x(2) by simp
  obtain k :: nat where k: "52 - ?e = int k"
    using e52 by (metis diff_ge_0_iff_ge nonneg_int_cases)
  have "of_int ?e - (52 :: real) = - of_int (int k)"
    using k by linarith
  then have u: "ulp ?x = 1 / 2 ^ k"
    unfolding ulp_def by (simp add: powr_minus powr_realpow divide_inverse)
  have "?x / ulp ?x = of_int (m * 2 ^ k)"
    by (simp add: u)
  then have "roundTiesToEven (?x / ulp ?x) = m * 2 ^ k"
    by (metis roundTiesToEven_of_int)
  then show ?thesis
    using fl_pos [OF x(1)] by (simp add: u)
qed

lemma fl_of_int:
  assumes "\<bar>m\<bar> < 2 ^ 53"
  shows "fl (of_int m) = of_int m"
proof -
  consider "0 < m" | "m = 0" | "m < 0" by linarith
  then show ?thesis
  proof cases
    case 1
    then show ?thesis using assms by (simp add: fl_of_int_pos)
  next
    case 2
    then show ?thesis by simp
  next
    case 3
    then have "fl (of_int (- m)) = of_int (- m)" using assms by (intro fl_of_int_pos) simp_all
    then show ?thesis by (simp add: fl_uminus)
  qed
qed

lemma fl_representable:
  assumes "\<bar>m\<bar> < 2 ^ 53"
  shows "fl (of_int m * 2 powr of_int j) = of_int m * 2 powr of_int j"
  by (simp add: fl_scale fl_of_int [OF assms])

lemma fl_fl_pos:
  assumes "0 < x"
  shows "fl (fl x) = fl x"
proof -
  let ?M = "roundTiesToEven (x / ulp x)"
  let ?e = "\<lfloor>log 2 \<bar>x\<bar>\<rfloor>"
  have u: "ulp x = 2 powr of_int (?e - 52)" by (simp add: ulp_def)
  have f: "fl x = of_int ?M * 2 powr of_int (?e - 52)"
    using fl_pos [OF assms] u by (simp add: mult.commute)
  show ?thesis
  proof (cases "?M = 2 ^ 53")
    case True
    have "fl x = of_int 1 * 2 powr of_int (?e + 1)"
      unfolding f True by (simp add: powr_add powr_diff)
    moreover have "fl (of_int 1 * 2 powr of_int (?e + 1)) = of_int 1 * 2 powr of_int (?e + 1)"
      by (rule fl_representable) simp
    ultimately show ?thesis by simp
  next
    case False
    then have "?M < 2 ^ 53" "0 \<le> ?M"
      using mantissa_bounds [OF assms] by simp_all
    then have "\<bar>?M\<bar> < 2 ^ 53"
      by simp
    then have "fl (of_int ?M * 2 powr of_int (?e - 52)) = of_int ?M * 2 powr of_int (?e - 52)"
      by (rule fl_representable)
    then show ?thesis using f by simp
  qed
qed

lemma fl_fl [simp]: "fl (fl x) = fl x"
proof -
  consider "0 < x" | "x = 0" | "x < 0" by linarith
  then show ?thesis
  proof cases
    case 1
    then show ?thesis by (rule fl_fl_pos)
  next
    case 2
    then show ?thesis by simp
  next
    case 3
    then have "fl (fl (- x)) = fl (- x)" by (intro fl_fl_pos) simp
    then show ?thesis by (simp add: fl_uminus)
  qed
qed

lemma fl_eval:
  assumes "2 ^ a \<le> \<bar>x\<bar> * 2 ^ b" "\<bar>x\<bar> * 2 ^ b < 2 * 2 ^ a"
  shows "fl x = sgn x * (of_int (roundTiesToEven (\<bar>x\<bar> * (2 ^ 52 * 2 ^ b) / 2 ^ a)) * 2 ^ a / (2 ^ 52 * 2 ^ b))"
proof -
  let ?e = "int a - int b"
  have p: "(2 :: real) powr of_int ?e = 2 ^ a / 2 ^ b"
    by (simp add: powr_diff powr_realpow)
  have "2 powr of_int ?e \<le> \<bar>x\<bar>"
    unfolding p using assms(1) by (simp add: pos_divide_le_eq)
  moreover have "\<bar>x\<bar> < 2 powr (of_int ?e + 1)"
    unfolding powr_add p using assms(2) by (simp add: pos_less_divide_eq)
  ultimately have "ulp x = 2 powr (of_int ?e - 52)" by (rule ulp_binade)
  then have u: "ulp x = 2 ^ a / (2 ^ 52 * 2 ^ b)"
    by (simp add: powr_diff powr_realpow)
  show ?thesis unfolding fl_def u by (simp add: field_simps)
qed

text \<open>The error of the rounding is at most half an \<open>ulp\<close>.\<close>

lemma fl_error: "\<bar>fl x - x\<bar> \<le> \<bar>x\<bar> / 2 ^ 53"
proof (cases "x = 0")
  case True
  then show ?thesis by simp
next
  case False
  let ?u = "ulp x"
  let ?m = "real_of_int (roundTiesToEven (\<bar>x\<bar> / ?u))"
  have u: "0 < ?u" by simp
  have u0: "?u \<noteq> 0" by (simp add: ulp_def)
  have "sgn x * \<bar>x\<bar> = x" by (rule mult_sgn_abs)
  then have "fl x - x = sgn x * (?u * ?m - \<bar>x\<bar>)"
    by (simp add: fl_def right_diff_distrib)
  then have "\<bar>fl x - x\<bar> = \<bar>?u * ?m - \<bar>x\<bar>\<bar>"
    using False by (simp add: abs_mult abs_sgn_eq)
  also have "?u * ?m - \<bar>x\<bar> = ?u * (?m - \<bar>x\<bar> / ?u)"
    using u0 by (simp add: algebra_simps)
  also have "\<bar>?u * (?m - \<bar>x\<bar> / ?u)\<bar> = ?u * \<bar>?m - \<bar>x\<bar> / ?u\<bar>"
    by (simp add: abs_mult abs_of_pos [OF u])
  also have "\<dots> \<le> ?u * (1 / 2)"
    using roundTiesToEven_near [of "\<bar>x\<bar> / ?u"] less_imp_le [OF u] by (rule mult_left_mono)
  also have "\<dots> \<le> \<bar>x\<bar> / 2 ^ 53"
    using ulp_bounds(1) [OF False] by simp
  finally show ?thesis .
qed

text \<open>
  The value of \<open>fl\<close> at a given real, for the ranges from \<open>2 ^ -7\<close> to \<open>2 ^ 12\<close>.
\<close>

lemmas fl_binades =
  fl_eval [where a = 0 and b = 7]
  fl_eval [where a = 0 and b = 6]
  fl_eval [where a = 0 and b = 5]
  fl_eval [where a = 0 and b = 4]
  fl_eval [where a = 0 and b = 3]
  fl_eval [where a = 0 and b = 2]
  fl_eval [where a = 0 and b = 1]
  fl_eval [where a = 0 and b = 0]
  fl_eval [where a = 1 and b = 0]
  fl_eval [where a = 2 and b = 0]
  fl_eval [where a = 3 and b = 0]
  fl_eval [where a = 4 and b = 0]
  fl_eval [where a = 5 and b = 0]
  fl_eval [where a = 6 and b = 0]
  fl_eval [where a = 7 and b = 0]
  fl_eval [where a = 8 and b = 0]
  fl_eval [where a = 9 and b = 0]
  fl_eval [where a = 10 and b = 0]
  fl_eval [where a = 11 and b = 0]

lemmas double_ops = fadd_def fsub_def fmul_def fdiv_def mathRound_def round2_def roundTiesToEven_def

lemma fl_1 [simp]: "fl 1 = 1"
  using fl_of_int [of 1] by simp

lemma fl_half: "fl (x / 2) = fl x / 2"
proof -
  have "(2 :: real) powr of_int (- 1) = 1 / 2" by (simp add: powr_minus_divide)
  then show ?thesis using fl_scale [of x "- 1"] by simp
qed

lemma fl_nonneg: "0 \<le> x \<Longrightarrow> 0 \<le> fl x"
  using fl_mono [of 0 x] by simp

lemma fl_nonpos: "x \<le> 0 \<Longrightarrow> fl x \<le> 0"
  using fl_mono [of x 0] by simp

lemma literals:
  "fl 0.5 = 0.5" "fl 1.5 = 1.5" "fl 2.5 = 2.5" "fl 3 = 3" "fl 3.5 = 3.5" "fl 4.5 = 4.5"
  "fl 8 = 8" "fl 12 = 12" "fl 15 = 15" "fl 100 = 100"
  by (simp_all add: fl_binades roundTiesToEven_def)

lemma one_minus_alpha: "fsub 1 (fl 0.3) = fl 0.7"
  by (simp add: fsub_def fl_binades roundTiesToEven_def)

section \<open>Properties of the pricing engine\<close>

lemma clamp_lower:
  fixes x :: real
  shows "l \<le> max (min x h) l"
  by simp

lemma clamp_upper:
  fixes x :: real
  shows "l \<le> h \<Longrightarrow> max (min x h) l \<le> h"
  by simp

lemma newSurge_eq: "newSurge (updateSurgeZone a d s) = round2 (smoothedSurge a d s)"
  by (simp add: updateSurgeZone_def Let_def)

lemma ratio_30_5: "fdiv 30 (max 5 1) = 6"
  by (simp add: double_ops fl_binades)

lemma smoothedSurge_30_5: "smoothedSurge 30 5 1.0 = fl 1.45"
  unfolding smoothedSurge_def Let_def ratio_30_5
  by (simp add: double_ops fl_binades SURGE_MIN_def SURGE_MAX_def)

lemma updateSurgeZone_30_5: "newSurge (updateSurgeZone 30 5 1.0) = fl 1.45"
  unfolding newSurge_eq smoothedSurge_30_5 by (simp add: double_ops fl_binades)

text \<open>
  A value half-way between two cents in exact arithmetic: \<open>0.3 * 1.2 + 0.7 * 1.25\<close> is 1.235,
  the doubles give 1.2349999999999999, and the result is 1.23.
\<close>

lemma ratio_2_1: "fdiv 2 (max 1 1) = 2"
  by (simp add: double_ops fl_binades)

lemma smoothedSurge_2_1: "smoothedSurge 2 1 1.25 = 5561945539802562 / 4503599627370496"
  unfolding smoothedSurge_def Let_def ratio_2_1
  by (simp add: double_ops fl_binades SURGE_MIN_def SURGE_MAX_def)

lemma updateSurgeZone_half_cent_below: "newSurge (updateSurgeZone 2 1 1.25) = fl 1.23"
  unfolding newSurge_eq smoothedSurge_2_1 by (simp add: double_ops fl_binades)

lemma ratio_0_1: "fdiv 0 (max 1 1) = 0"
  by (simp add: double_ops)

lemma smoothedSurge_0_1: "smoothedSurge 0 1 (fl 1.01) = fl 1.007"
  unfolding smoothedSurge_def Let_def ratio_0_1
  by (simp add: double_ops fl_binades SURGE_MIN_def SURGE_MAX_def)

lemma round2_1007: "round2 (fl 1.007) = fl 1.01"
  by (simp add: double_ops fl_binades)

lemma fl_101_1007: "fl 1.01 \<noteq> fl 1.007"
  by (simp add: double_ops fl_binades)

text \<open>
  Claim C7, as stated, at previous surge 1.01 with no active request and one driver: the
  smoothed and clamped value is the double 1.007, and \<open>updateSurgeZone\<close> returns the
  double 1.01.
\<close>

theorem updateSurgeZone_returns_unrounded_counterexample:
  "newSurge (updateSurgeZone 0 1 (fl 1.01)) = fl 1.01
   \<and> max (min (fadd (fmul (fl 0.3) 1.0) (fmul (fl 0.7) (fl 1.01))) 3.5) 1.0 = fl 1.007
   \<and> newSurge (updateSurgeZone 0 1 (fl 1.01))
        \<noteq> max (min (fadd (fmul (fl 0.3) 1.0) (fmul (fl 0.7) (fl 1.01))) 3.5) 1.0"
proof -
  have a: "newSurge (updateSurgeZone 0 1 (fl 1.01)) = fl 1.01"
    unfolding newSurge_eq smoothedSurge_0_1 by (rule round2_1007)
  have b: "max (min (fadd (fmul (fl 0.3) 1.0) (fmul (fl 0.7) (fl 1.01))) 3.5) 1.0 = fl 1.007"
    by (simp add: double_ops fl_binades)
  show ?thesis unfolding a b using fl_101_1007 by simp
qed


lemma smoothedSurge_lower: "1 \<le> smoothedSurge a d s"
proof -
  have "SURGE_MIN \<le> smoothedSurge a d s"
    unfolding smoothedSurge_def Let_def by (rule clamp_lower)
  then show ?thesis by (simp add: SURGE_MIN_def)
qed

lemma smoothedSurge_upper: "smoothedSurge a d s \<le> 3.5"
proof -
  have "SURGE_MIN \<le> SURGE_MAX" by (simp add: SURGE_MIN_def SURGE_MAX_def)
  then have "smoothedSurge a d s \<le> SURGE_MAX"
    unfolding smoothedSurge_def Let_def by (rule clamp_upper)
  then show ?thesis by (simp add: SURGE_MAX_def)
qed

lemma round2_range:
  assumes "1 \<le> x" "x \<le> 3.5"
  shows "1 \<le> round2 x" "round2 x \<le> 3.5"
proof -
  have "fl 100 \<le> fl (x * 100)" "fl (x * 100) \<le> fl 350"
    using assms by (auto intro!: fl_mono)
  moreover have "fl 100 = 100" "fl 350 = 350"
    by (simp_all add: fl_binades roundTiesToEven_def)
  ultimately have p: "100 \<le> fmul x 100" "fmul x 100 \<le> 350"
    by (simp_all add: fmul_def)
  have "real_of_int 100 \<le> mathRound (fmul x 100)"
    unfolding mathRound_def using p(1) by (subst of_int_le_iff) linarith
  then have "fl (100 / 100) \<le> round2 x"
    unfolding round2_def fdiv_def by (intro fl_mono divide_right_mono) simp_all
  then show "1 \<le> round2 x" by simp
  have "mathRound (fmul x 100) \<le> real_of_int 350"
    unfolding mathRound_def using p(2) by (subst of_int_le_iff) linarith
  then have "round2 x \<le> fl (350 / 100)"
    unfolding round2_def fdiv_def by (intro fl_mono divide_right_mono) simp_all
  moreover have "fl (350 / 100) = 3.5"
    by (simp add: fl_binades roundTiesToEven_def)
  ultimately show "round2 x \<le> 3.5" by simp
qed

text \<open>
  \<open>Math.round(x * 100) / 100\<close> is within half a cent of \<open>x\<close>, up to the error of the two
  roundings of doubles.
\<close>

lemma round2_near: "\<bar>round2 x - x\<bar> \<le> 0.005 + (\<bar>x\<bar> + 1) / 2 ^ 51"
proof -
  define p where "p = fmul x 100"
  define k where "k = mathRound p"
  have e: "(1 :: real) / 2 ^ 53 \<le> 1" by simp
  have p: "\<bar>p - x * 100\<bar> \<le> \<bar>x\<bar> * 100 / 2 ^ 53"
    unfolding p_def fmul_def using fl_error [of "x * 100"] by (simp add: abs_mult)
  have k: "\<bar>k - p\<bar> \<le> 1 / 2"
    unfolding k_def mathRound_def by linarith
  have r: "\<bar>round2 x - k / 100\<bar> \<le> \<bar>k\<bar> / 100 / 2 ^ 53"
    unfolding round2_def fdiv_def k_def p_def using fl_error [of "mathRound (fmul x 100) / 100"]
    by simp
  have "\<bar>x\<bar> * 100 / 2 ^ 53 \<le> \<bar>x\<bar> * 100"
    by (simp add: field_simps)
  with p have pb: "\<bar>p\<bar> \<le> 2 * (\<bar>x\<bar> * 100)" by linarith
  with k have kb: "\<bar>k\<bar> \<le> 2 * (\<bar>x\<bar> * 100) + 1 / 2" by linarith
  have "\<bar>k\<bar> / 100 / 2 ^ 53 \<le> (2 * (\<bar>x\<bar> * 100) + 1 / 2) / 100 / 2 ^ 53"
    using kb by (intro divide_right_mono) simp_all
  with r have r': "\<bar>round2 x - k / 100\<bar> \<le> (2 * \<bar>x\<bar> + 1 / 200) / 2 ^ 53"
    by simp
  have tri: "\<bar>a + b + c\<bar> \<le> \<bar>a\<bar> + \<bar>b\<bar> + \<bar>c\<bar>" for a b c :: real
    by linarith
  have "round2 x - x = (round2 x - k / 100) + (k - p) / 100 + (p - x * 100) / 100"
    by (simp add: field_simps)
  then have "\<bar>round2 x - x\<bar> \<le> \<bar>round2 x - k / 100\<bar> + \<bar>k - p\<bar> / 100 + \<bar>p - x * 100\<bar> / 100"
    using tri [of "round2 x - k / 100" "(k - p) / 100" "(p - x * 100) / 100"] by simp
  also have "\<dots> \<le> (2 * \<bar>x\<bar> + 1 / 200) / 2 ^ 53 + (1 / 2) / 100 + (\<bar>x\<bar> * 100 / 2 ^ 53) / 100"
    using r' k p by (intro add_mono divide_right_mono) simp_all
  also have "\<dots> \<le> 0.005 + (\<bar>x\<bar> + 1) / 2 ^ 51"
    by (simp add: field_simps)
  finally show ?thesis .
qed

lemma smoothedSurge_table:
  "smoothedSurge active drivers prevSurge =
     (let r = fdiv active (max drivers 1);
          raw = (if r < 1.5 then 1.0
                 else if r < 3.0 then fadd 1.0 (fmul (fsub r 1.5) (fl 0.4))
                 else fadd (fl 1.6) (fmul (fsub r 3.0) (fl 0.3)))
      in max (min (fadd (fmul (fl 0.3) raw) (fmul (fl 0.7) prevSurge)) 3.5) 1.0)"
proof -
  define r where "r = fdiv active (max drivers 1)"
  have raw: "(if r < 0.5 then 1.0 else if r < 1.5 then 1.0
              else if r < 3.0 then fadd 1.0 (fmul (fsub r 1.5) (fl 0.4))
              else fadd (fl 1.6) (fmul (fsub r 3.0) (fl 0.3)))
           = (if r < 1.5 then 1.0
              else if r < 3.0 then fadd 1.0 (fmul (fsub r 1.5) (fl 0.4))
              else fadd (fl 1.6) (fmul (fsub r 3.0) (fl 0.3)))"
    by simp
  show ?thesis
    unfolding smoothedSurge_def Let_def r_def[symmetric] raw SURGE_MIN_def SURGE_MAX_def
      one_minus_alpha
    by (rule refl)
qed

text \<open>
  Claim C7, amended. With \<open>r = activeRequests / max(availableDrivers, 1)\<close> and the raw
  multiplier of the table (1.0 below 1.5, \<open>1.0 + (r - 1.5) 0.4\<close> below 3.0,
  \<open>1.6 + (r - 3.0) 0.3\<close> from 3.0 on), \<open>updateSurgeZone\<close> computes \<open>0.3 raw + 0.7 prevSurge\<close>,
  clamps it to [1.0, 3.5] and returns \<open>Math.round(x * 100) / 100\<close> of the clamped value \<open>x\<close>
  (\<open>smoothedSurge\<close>), every operation being that of doubles; the result is within half a cent
  of \<open>x\<close>, up to the error of the roundings of doubles. The result lies in [1.0, 3.5] for every
  input, and previous surge 1.0 with 30 active requests and 5 drivers gives the double 1.45.
\<close>

theorem updateSurgeZone_rounded_smoothing:
  "newSurge (updateSurgeZone active drivers prevSurge) =
     (let r = fdiv active (max drivers 1);
          raw = (if r < 1.5 then 1.0
                 else if r < 3.0 then fadd 1.0 (fmul (fsub r 1.5) (fl 0.4))
                 else fadd (fl 1.6) (fmul (fsub r 3.0) (fl 0.3)))
      in round2 (max (min (fadd (fmul (fl 0.3) raw) (fmul (fl 0.7) prevSurge)) 3.5) 1.0))
   \<and> \<bar>newSurge (updateSurgeZone active drivers prevSurge)
        - smoothedSurge active drivers prevSurge\<bar> \<le> 0.005 + 4.5 / 2 ^ 51
   \<and> 1.0 \<le> newSurge (updateSurgeZone active drivers prevSurge)
   \<and> newSurge (updateSurgeZone active drivers prevSurge) \<le> 3.5
   \<and> newSurge (updateSurgeZone 30 5 1.0) = fl 1.45"
proof -
  have a: "newSurge (updateSurgeZone active drivers prevSurge) =
     (let r = fdiv active (max drivers 1);
          raw = (if r < 1.5 then 1.0
                 else if r < 3.0 then fadd 1.0 (fmul (fsub r 1.5) (fl 0.4))
                 else fadd (fl 1.6) (fmul (fsub r 3.0) (fl 0.3)))
      in round2 (max (min (fadd (fmul (fl 0.3) raw) (fmul (fl 0.7) prevSurge)) 3.5) 1.0))"
    unfolding newSurge_eq smoothedSurge_table Let_def by (rule refl)
  have b: "1.0 \<le> newSurge (updateSurgeZone active drivers prevSurge)"
    "newSurge (updateSurgeZone active drivers prevSurge) \<le> 3.5"
    unfolding newSurge_eq using round2_range [OF smoothedSurge_lower smoothedSurge_upper]
    by simp_all
  have "\<bar>smoothedSurge active drivers prevSurge\<bar> \<le> 3.5"
    using smoothedSurge_lower [of active drivers prevSurge]
      smoothedSurge_upper [of active drivers prevSurge] by simp
  then have "0.005 + (\<bar>smoothedSurge active drivers prevSurge\<bar> + 1) / 2 ^ 51
               \<le> 0.005 + 4.5 / 2 ^ 51"
    by (intro add_left_mono divide_right_mono) simp_all
  then have c: "\<bar>newSurge (updateSurgeZone active drivers prevSurge)
        - smoothedSurge active drivers prevSurge\<bar> \<le> 0.005 + 4.5 / 2 ^ 51"
    unfolding newSurge_eq using round2_near [of "smoothedSurge active drivers prevSurge"]
    by (rule order_trans [rotated])
  from a c b updateSurgeZone_30_5 show ?thesis by (intro conjI)
qed

lemma calculateSurgeMultiplier_lower: "1 \<le> calculateSurgeMultiplier f"
proof -
  have "SURGE_MIN \<le> calculateSurgeMultiplier f"
    unfolding calculateSurgeMultiplier_def Let_def by (rule clamp_lower)
  then show ?thesis by (simp add: SURGE_MIN_def)
qed

lemma calculateSurgeMultiplier_upper: "calculateSurgeMultiplier f \<le> 3.5"
proof -
  have "SURGE_MIN \<le> SURGE_MAX" by (simp add: SURGE_MIN_def SURGE_MAX_def)
  then have "calculateSurgeMultiplier f \<le> SURGE_MAX"
    unfolding calculateSurgeMultiplier_def Let_def by (rule clamp_upper)
  then show ?thesis by (simp add: SURGE_MAX_def)
qed

lemma calculateBasePrice_pos: "0 < calculateBasePrice dk tm vt"
  by (cases vt) (simp_all add: calculateBasePrice_def Let_def less_max_iff_disj)

lemma priceAfterSurge_nonneg: "0 \<le> priceAfterSurge f"
proof -
  have "0 \<le> calculateBasePrice (distance f) (estimatedTime f) (vehicleType f)
              * calculateSurgeMultiplier f"
    using calculateBasePrice_pos [of "distance f" "estimatedTime f" "vehicleType f"]
      calculateSurgeMultiplier_lower [of f] by simp
  then show ?thesis unfolding priceAfterSurge_def fmul_def by (rule fl_nonneg)
qed

lemma priceAfterSurge_double: "fl (priceAfterSurge f) = priceAfterSurge f"
  by (simp add: priceAfterSurge_def fmul_def)

lemma fsub_1_le:
  assumes "0 \<le> m"
  shows "fsub 1 m \<le> 1"
proof -
  have "fl (1 - m) \<le> fl 1" using assms by (intro fl_mono) simp
  then show ?thesis by (simp add: fsub_def)
qed

lemma calculatePoolDiscount_bounds:
  "0.5 \<le> calculatePoolDiscount p d" "calculatePoolDiscount p d \<le> 1"
proof -
  have "\<And>x. MIN_DISCOUNT \<le> max x MIN_DISCOUNT"
    by (rule max.cobounded2)
  moreover have "MIN_DISCOUNT \<le> 1.0"
    by (simp add: MIN_DISCOUNT_def)
  ultimately have "MIN_DISCOUNT \<le> calculatePoolDiscount p d"
    unfolding calculatePoolDiscount_def Let_def by (simp split: option.split)
  then show "0.5 \<le> calculatePoolDiscount p d"
    by (simp add: MIN_DISCOUNT_def)
  have "\<And>m. max (fsub 1 (max m 0)) MIN_DISCOUNT \<le> 1"
    using fsub_1_le by (simp add: MIN_DISCOUNT_def)
  then show "calculatePoolDiscount p d \<le> 1"
    by (simp add: calculatePoolDiscount_def Let_def split: option.split)
qed

lemma finalPriceUnrounded_bounds:
  "0.5 * priceAfterSurge f \<le> finalPriceUnrounded f"
  "finalPriceUnrounded f \<le> priceAfterSurge f"
proof -
  let ?P = "priceAfterSurge f"
  let ?d = "calculatePoolDiscount (poolSize f) (detourMinutes f)"
  have "?P * 0.5 \<le> ?P * ?d"
    using calculatePoolDiscount_bounds(1) priceAfterSurge_nonneg by (rule mult_left_mono)
  then have "fl (?P / 2) \<le> fl (?P * ?d)"
    by (intro fl_mono) simp
  then show "0.5 * ?P \<le> finalPriceUnrounded f"
    unfolding finalPriceUnrounded_def fmul_def fl_half priceAfterSurge_double by simp
  have "?P * ?d \<le> ?P * 1"
    using calculatePoolDiscount_bounds(2) priceAfterSurge_nonneg by (rule mult_left_mono)
  then have "fl (?P * ?d) \<le> fl ?P"
    by (intro fl_mono) simp
  then show "finalPriceUnrounded f \<le> ?P"
    unfolding finalPriceUnrounded_def fmul_def priceAfterSurge_double by simp
qed

lemma PER_PASSENGER_pos: "0 \<le> PER_PASSENGER"
  unfolding PER_PASSENGER_def by (rule fl_nonneg) simp

lemma DETOUR_PENALTY_pos: "0 \<le> DETOUR_PENALTY"
  unfolding DETOUR_PENALTY_def by (rule fl_nonneg) simp

lemma calculatePoolDiscount_closed_form: "calculatePoolDiscount (Some p) d =
      max (fsub 1 (max (fsub (fmul (fl 0.15) (fsub p 1))
                             (fmul (fl 0.02) (max (case d of None \<Rightarrow> 0 | Some m \<Rightarrow> m) 0))) 0)) 0.50"
proof (cases "p \<le> 1")
  case True
  let ?pen = "fmul (fl 0.02) (max (case d of None \<Rightarrow> 0 | Some m \<Rightarrow> m) 0)"
  have "fsub p 1 \<le> 0" unfolding fsub_def using True by (intro fl_nonpos) simp
  then have "fl 0.15 * fsub p 1 \<le> 0"
    using PER_PASSENGER_pos by (simp add: PER_PASSENGER_def mult_nonneg_nonpos)
  then have b: "fmul (fl 0.15) (fsub p 1) \<le> 0"
    unfolding fmul_def by (rule fl_nonpos)
  have "0 \<le> fl 0.02 * max (case d of None \<Rightarrow> 0 | Some m \<Rightarrow> m) 0"
    using DETOUR_PENALTY_pos by (simp add: DETOUR_PENALTY_def)
  then have "0 \<le> ?pen" unfolding fmul_def by (rule fl_nonneg)
  with b have "fsub (fmul (fl 0.15) (fsub p 1)) ?pen \<le> 0"
    unfolding fsub_def by (intro fl_nonpos) simp
  then have "max (fsub (fmul (fl 0.15) (fsub p 1)) ?pen) 0 = 0"
    by (rule max_absorb2)
  then have "max (fsub 1 (max (fsub (fmul (fl 0.15) (fsub p 1)) ?pen) 0)) 0.50 = 1"
    by (simp add: fsub_def)
  with True show ?thesis by (simp add: calculatePoolDiscount_def)
next
  case False
  then have p: "p \<noteq> 0" "\<not> p \<le> 1" by simp_all
  have pen: "(case d of None \<Rightarrow> 0 | Some x \<Rightarrow> if x \<noteq> 0 \<and> x > 0 then fmul DETOUR_PENALTY x else 0)
             = fmul (fl 0.02) (max (case d of None \<Rightarrow> 0 | Some m \<Rightarrow> m) 0)"
    by (cases d) (simp_all add: DETOUR_PENALTY_def max_def fmul_def)
  show ?thesis
    unfolding calculatePoolDiscount_def Let_def pen
    using p by (simp add: PER_PASSENGER_def MIN_DISCOUNT_def)
qed

text \<open>
  Claim C6, amended. For a pool size \<open>p\<close> and detour minutes \<open>d\<close> (an absent detour counting
  as 0), \<open>calculatePoolDiscount\<close> is \<open>max (1 - max (0.15 (p - 1) - 0.02 max(d, 0), 0), 0.50)\<close>,
  every operation being that of doubles; it is 1.0 for \<open>p \<le> 1\<close>, and it lies in [0.5, 1.0].
  The final price that \<open>calculateDynamicPrice\<close> computes, the product of base and surge times
  the discount, lies between half of the product of base and surge and that product. The
  field \<open>finalPrice\<close> of the result is \<open>Math.round(x * 100) / 100\<close> of that final price \<open>x\<close>,
  which is within half a cent of \<open>x\<close>, up to the error of the roundings of doubles.
\<close>

theorem pool_discount_formula_and_unrounded_price_bounds:
  "calculatePoolDiscount (Some p) d =
      max (fsub 1 (max (fsub (fmul (fl 0.15) (fsub p 1))
                             (fmul (fl 0.02) (max (case d of None \<Rightarrow> 0 | Some m \<Rightarrow> m) 0))) 0)) 0.50
   \<and> (p \<le> 1 \<longrightarrow> calculatePoolDiscount (Some p) d = 1.0)
   \<and> 0.5 \<le> calculatePoolDiscount (poolSize f) (detourMinutes f)
   \<and> calculatePoolDiscount (poolSize f) (detourMinutes f) \<le> 1.0
   \<and> priceAfterSurge f =
        fmul (calculateBasePrice (distance f) (estimatedTime f) (vehicleType f))
             (calculateSurgeMultiplier f)
   \<and> finalPriceUnrounded f =
        fmul (priceAfterSurge f) (calculatePoolDiscount (poolSize f) (detourMinutes f))
   \<and> 0.5 * priceAfterSurge f \<le> finalPriceUnrounded f
   \<and> finalPriceUnrounded f \<le> priceAfterSurge f
   \<and> finalPrice (calculateDynamicPrice f) = round2 (finalPriceUnrounded f)
   \<and> \<bar>finalPrice (calculateDynamicPrice f) - finalPriceUnrounded f\<bar>
        \<le> 0.005 + (\<bar>finalPriceUnrounded f\<bar> + 1) / 2 ^ 51"
proof -
  have solo: "p \<le> 1 \<longrightarrow> calculatePoolDiscount (Some p) d = 1.0"
    by (simp add: calculatePoolDiscount_def)
  have hi: "calculatePoolDiscount (poolSize f) (detourMinutes f) \<le> 1.0"
    using calculatePoolDiscount_bounds(2) by simp
  have out: "finalPrice (calculateDynamicPrice f) = round2 (finalPriceUnrounded f)"
    by (simp add: calculateDynamicPrice_def Let_def)
  have near: "\<bar>finalPrice (calculateDynamicPrice f) - finalPriceUnrounded f\<bar>
        \<le> 0.005 + (\<bar>finalPriceUnrounded f\<bar> + 1) / 2 ^ 51"
    unfolding out by (rule round2_near)
  from calculatePoolDiscount_closed_form solo calculatePoolDiscount_bounds(1) hi
    priceAfterSurge_def finalPriceUnrounded_def finalPriceUnrounded_bounds out near
  show ?thesis by (intro conjI)
qed

theorem pool_discount_formula_and_unrounded_price_bounds_witness:
  "(1::real) \<le> 1 \<and> calculatePoolDiscount (Some 1) None = 1.0
   \<and> calculatePoolDiscount (Some 3) (Some 5) = fl 0.8"
proof -
  have a: "calculatePoolDiscount (Some 1) None = 1.0"
    using pool_discount_formula_and_unrounded_price_bounds [of 1 None, THEN conjunct2, THEN conjunct1]
    by simp
  have "calculatePoolDiscount (Some 3) (Some 5) =
      max (fsub 1 (max (fsub (fmul (fl 0.15) (fsub 3 1)) (fmul (fl 0.02) (max 5 0))) 0)) 0.50"
    using pool_discount_formula_and_unrounded_price_bounds [of 3 "Some 5", THEN conjunct1]
    by simp
  also have "\<dots> = fl 0.8"
    by (simp add: double_ops fl_binades)
  finally show ?thesis using a by simp
qed

text \<open>
  A final price half-way between two cents in exact arithmetic: \<open>33 * 0.7 * 0.85\<close> is 19.635,
  the doubles give 19.634999999999998, and the result is 19.63.
\<close>

lemma basePrice_vanRide:
  "calculateBasePrice (distance vanRide) (estimatedTime vanRide) (vehicleType vanRide)
     = 6502071962016153 / 281474976710656"
  by (simp add: vanRide_def calculateBasePrice_def Let_def double_ops fl_binades)

lemma surge_vanRide: "calculateSurgeMultiplier vanRide = 1"
  by (simp add: calculateSurgeMultiplier_def vanRide_def Let_def isPeakHour_def
        SURGE_MIN_def SURGE_MAX_def)

lemma discount_vanRide:
  "calculatePoolDiscount (poolSize vanRide) (detourMinutes vanRide) = fl 0.85"
  by (simp add: vanRide_def calculatePoolDiscount_def Let_def PER_PASSENGER_def MIN_DISCOUNT_def
        double_ops fl_binades)

lemma finalPriceUnrounded_vanRide:
  "finalPriceUnrounded vanRide = 2763380583856865 / 140737488355328"
  unfolding finalPriceUnrounded_def priceAfterSurge_def basePrice_vanRide surge_vanRide
    discount_vanRide
  by (simp add: double_ops fl_binades)

lemma calculateDynamicPrice_half_cent_below:
  "finalPrice (calculateDynamicPrice vanRide) = fl 19.63"
proof -
  have "finalPrice (calculateDynamicPrice vanRide) = round2 (finalPriceUnrounded vanRide)"
    by (simp add: calculateDynamicPrice_def Let_def)
  then show ?thesis
    unfolding finalPriceUnrounded_vanRide by (simp add: double_ops fl_binades)
qed

text \<open>The ride \<open>snowRide\<close>, step by step.\<close>

lemma basePrice_snowRide:
  "calculateBasePrice (distance snowRide) (estimatedTime snowRide) (vehicleType snowRide)
     = 3733611634438963 / 281474976710656"
  by (simp add: snowRide_def calculateBasePrice_def Let_def double_ops fl_binades)

lemma surge_snowRide: "calculateSurgeMultiplier snowRide = 1.5"
  by (simp add: calculateSurgeMultiplier_def snowRide_def Let_def isPeakHour_def
        SURGE_MIN_def SURGE_MAX_def double_ops fl_binades)

lemma priceAfterSurge_snowRide: "priceAfterSurge snowRide = 1400104362914611 / 70368744177664"
  unfolding priceAfterSurge_def surge_snowRide basePrice_snowRide
  by (simp add: double_ops fl_binades)

lemma finalPriceUnrounded_snowRide:
  "finalPriceUnrounded snowRide = 1400104362914611 / 70368744177664"
  unfolding finalPriceUnrounded_def priceAfterSurge_snowRide
  by (simp add: snowRide_def calculatePoolDiscount_def double_ops fl_binades)

lemma result_snowRide:
  "finalPrice (calculateDynamicPrice snowRide) = fl 19.9"
  "basePrice (calculateDynamicPrice snowRide) = fl 13.26"
  "surgeMultiplier (calculateDynamicPrice snowRide) = 1.5"
proof -
  have "finalPrice (calculateDynamicPrice snowRide) = round2 (finalPriceUnrounded snowRide)"
    by (simp add: calculateDynamicPrice_def Let_def)
  then show "finalPrice (calculateDynamicPrice snowRide) = fl 19.9"
    unfolding finalPriceUnrounded_snowRide by (simp add: double_ops fl_binades)
  have "basePrice (calculateDynamicPrice snowRide)
          = round2 (calculateBasePrice (distance snowRide) (estimatedTime snowRide) (vehicleType snowRide))"
    by (simp add: calculateDynamicPrice_def Let_def)
  then show "basePrice (calculateDynamicPrice snowRide) = fl 13.26"
    unfolding basePrice_snowRide by (simp add: double_ops fl_binades)
  have "surgeMultiplier (calculateDynamicPrice snowRide)
          = round2 (calculateSurgeMultiplier snowRide)"
    by (simp add: calculateDynamicPrice_def Let_def)
  then show "surgeMultiplier (calculateDynamicPrice snowRide) = 1.5"
    unfolding surge_snowRide by (simp add: double_ops fl_binades)
qed

text \<open>
  Claim C6, as stated, at a solo ride of 4.02 km and 8.04 minutes in a sedan, in snow:
  \<open>calculateDynamicPrice\<close> returns the final price 19.9, the base price 13.26 and the surge
  1.5. The final price is above the product of the returned base price and surge (19.89), and
  above the product of the base price and the surge as they were computed (19.8967).
\<close>

theorem returned_final_price_above_base_times_surge_counterexample:
  "finalPrice (calculateDynamicPrice snowRide) = fl 19.9
   \<and> basePrice (calculateDynamicPrice snowRide) = fl 13.26
   \<and> surgeMultiplier (calculateDynamicPrice snowRide) = 1.5
   \<and> \<not> finalPrice (calculateDynamicPrice snowRide)
         \<le> basePrice (calculateDynamicPrice snowRide) * surgeMultiplier (calculateDynamicPrice snowRide)
   \<and> \<not> finalPrice (calculateDynamicPrice snowRide)
         \<le> calculateBasePrice (distance snowRide) (estimatedTime snowRide) (vehicleType snowRide)
             * calculateSurgeMultiplier snowRide"
proof -
  have a: "\<not> fl 19.9 \<le> fl 13.26 * 1.5"
    by (simp add: fl_binades roundTiesToEven_def)
  have b: "\<not> fl 19.9 \<le> calculateBasePrice (distance snowRide) (estimatedTime snowRide) (vehicleType snowRide)
             * calculateSurgeMultiplier snowRide"
    unfolding surge_snowRide basePrice_snowRide
    by (simp add: fl_binades roundTiesToEven_def)
  show ?thesis unfolding result_snowRide using a b by simp
qed

section \<open>Properties of the geometry\<close>

lemma atan2_abs_sin_cos:
  assumes "\<bar>x\<bar> < pi / 2"
  shows "atan2 (sqrt (sin x * sin x)) (sqrt (1 - sin x * sin x)) = \<bar>x\<bar>"
proof -
  have c: "0 < cos x" using assms by (intro cos_gt_zero_pi) auto
  have "1 - sin x * sin x = cos x * cos x"
    using sin_cos_squared_add[of x] by (simp add: power2_eq_square algebra_simps)
  then have s2: "sqrt (1 - sin x * sin x) = cos x"
    using c by simp
  have s1: "sqrt (sin x * sin x) = \<bar>sin x\<bar>" by simp
  have ax: "0 \<le> \<bar>x\<bar>" "\<bar>x\<bar> < pi / 2" using assms by auto
  have "\<bar>sin x\<bar> = sin \<bar>x\<bar>"
  proof (cases "0 \<le> x")
    case True
    then have "0 \<le> sin x" using assms by (intro sin_ge_zero) auto
    with True show ?thesis by simp
  next
    case False
    then have "0 \<le> sin (- x)" using assms by (intro sin_ge_zero) auto
    with False show ?thesis by simp
  qed
  moreover have "cos x = cos \<bar>x\<bar>" by (simp add: abs_if)
  ultimately have "\<bar>sin x\<bar> / cos x = tan \<bar>x\<bar>" by (simp add: tan_def)
  moreover have "arctan (tan \<bar>x\<bar>) = \<bar>x\<bar>"
    using ax by (intro arctan_tan) auto
  ultimately show ?thesis
    unfolding atan2_def s1 s2 using c by simp
qed

lemma haversineDistance_same_lng:
  assumes "lng a = lng b" and "\<bar>lat b - lat a\<bar> < 180"
  shows "haversineDistance a b = 6371 * (\<bar>lat b - lat a\<bar> * (pi / 180))"
proof -
  define x where "x = toRadians (lat b - lat a) / 2"
  have "\<bar>x\<bar> = \<bar>lat b - lat a\<bar> * (pi / 360)"
    by (simp add: x_def toRadians_def abs_mult)
  also have "\<dots> < 180 * (pi / 360)"
    using assms(2) by (intro mult_strict_right_mono) auto
  finally have bound: "\<bar>x\<bar> < pi / 2" by simp
  have absx: "2 * \<bar>x\<bar> = \<bar>lat b - lat a\<bar> * (pi / 180)"
    by (simp add: x_def toRadians_def abs_mult)
  have "haversineDistance a b =
          6371 * (2 * atan2 (sqrt (sin x * sin x)) (sqrt (1 - sin x * sin x)))"
    using assms(1) by (simp add: haversineDistance_def Let_def x_def toRadians_def)
  also have "\<dots> = 6371 * (2 * \<bar>x\<bar>)"
    by (simp only: atan2_abs_sin_cos[OF bound])
  finally show ?thesis by (simp only: absx)
qed

section \<open>The route planner on the requests A and B\<close>

lemma haversineDistance_stop [simp]:
  "\<bar>b - a\<bar> < 180 \<Longrightarrow>
     haversineDistance (stop n k a) (stop m l b) = 6371 * (\<bar>b - a\<bar> * (pi / 180))"
  "\<bar>b - a\<bar> < 180 \<Longrightarrow>
     haversineDistance \<lparr>lat = a, lng = 0\<rparr> (stop m l b) = 6371 * (\<bar>b - a\<bar> * (pi / 180))"
  "\<bar>b - a\<bar> < 180 \<Longrightarrow>
     haversineDistance \<lparr>lat = a, lng = 0\<rparr> \<lparr>lat = b, lng = 0\<rparr> = 6371 * (\<bar>b - a\<bar> * (pi / 180))"
  by (simp_all add: haversineDistance_same_lng stop_def)

lemma stop_sel [simp]:
  "lat (stop n k a) = a" "lng (stop n k a) = 0" "passenger_id (stop n k a) = n"
  "point_type (stop n k a) = k"
  by (simp_all add: stop_def)

lemma stop_eq [simp]: "stop n k a = stop m l b \<longleftrightarrow> n = m \<and> k = l \<and> a = b"
  by (auto simp: stop_def)

lemma buildWaypoints_AB: "buildWaypoints [passengerA, passengerB]
  = [stop ''pass_A'' Pickup 0, stop ''pass_A'' Dropoff 0.04, stop ''pass_B'' Pickup 0.02, stop ''pass_B'' Dropoff 0.01]"
  by (simp add: passengerA_def passengerB_def sampleRequest_def stop_def)

lemma constraint_A: "passengerConstraints constraintsAB ''pass_A'' = Some \<lparr> maxDetourMinutes = 15,
     directDistance = 6371 * (0.04 * (pi / 180)), directTime = estimateTravelTime (6371 * (0.04 * (pi / 180))),
     seatsRequired = 1, luggageCount = 2 \<rparr>"
  by (simp add: constraintsAB_def constraintOf_def passengerA_def passengerB_def sampleRequest_def Let_def)

lemma constraint_B: "passengerConstraints constraintsAB ''pass_B'' = Some \<lparr> maxDetourMinutes = 15,
     directDistance = 6371 * (0.01 * (pi / 180)), directTime = estimateTravelTime (6371 * (0.01 * (pi / 180))),
     seatsRequired = 1, luggageCount = 2 \<rparr>"
  by (simp add: constraintsAB_def constraintOf_def passengerA_def passengerB_def sampleRequest_def Let_def)

lemma capacity_AB: "maxSeats constraintsAB = 6" "maxLuggage constraintsAB = 5"
  by (simp_all add: constraintsAB_def)

lemma twoOptWhile_True: "twoOptWhile c True it r =
   (if it < MAX_ITERATIONS then twoOptWhile c (snd (twoOptPass c r)) (it + 1) (fst (twoOptPass c r)) else r)"
  by (subst twoOptWhile.simps) simp

lemma twoOptWhile_False: "twoOptWhile c False it r = r"
  by (subst twoOptWhile.simps) simp

lemma twoOptPairs_4: "twoOptPairs (Suc (Suc (Suc (Suc 0)))) = [(0, 2), (0, 3), (1, 3)]"
  by (simp add: twoOptPairs_def upt_rec)

lemma greedy_AB:
  "greedyRouteConstruction [stop ''pass_A'' Pickup 0, stop ''pass_A'' Dropoff 0.04, stop ''pass_B'' Pickup 0.02, stop ''pass_B'' Dropoff 0.01] \<lparr>lat = 0.01, lng = 0\<rparr> constraintsAB
   = Some greedyAB"
  using pi_gt_zero pi_less_4
  by (simp add: greedyRouteConstruction_def greedyAB_def
       numeral_eq_Suc isValidNextWaypoint_def constraint_A constraint_B capacity_AB visit_def Let_def
       calculateDetours_def detourViolated_def estimateTravelTime_def)

lemma firstPass_AB: "twoOptPass constraintsAB greedyAB = (routeAB, True)"
  using pi_gt_zero pi_less_4
  by (simp add: twoOptPass_def twoOptPairs_4 greedyAB_def routeAB_def tryCandidate_def reverseSegment_def Let_def calculateDetours_def detourViolated_def
       estimateTravelTime_def constraint_A constraint_B)

lemma secondPass_AB: "twoOptPass constraintsAB routeAB = (routeAB, False)"
  using pi_gt_zero pi_less_4
  by (simp add: twoOptPass_def twoOptPairs_4 routeAB_def tryCandidate_def reverseSegment_def Let_def calculateDetours_def detourViolated_def
       estimateTravelTime_def constraint_A constraint_B)

lemma twoOpt_AB: "twoOptOptimization greedyAB constraintsAB = routeAB"
  by (simp add: twoOptOptimization_def twoOptWhile_True twoOptWhile_False firstPass_AB secondPass_AB MAX_ITERATIONS_def)

lemma optimizeRoute_AB: "optimizeRoute [passengerA, passengerB] \<lparr>lat = 0.01, lng = 0\<rparr> constraintsAB = Some routeAB"
  unfolding optimizeRoute_def buildWaypoints_AB greedy_AB by (simp add: twoOpt_AB)

lemma efficiency_AB: "calculateEfficiencyScore routeAB = Some 1.25"
  using pi_gt_zero
  by (simp add: calculateEfficiencyScore_def quotient_def routeAB_def addPassengerId_def
        directDistanceOf_def Let_def)

lemma centroid_AB: "calculateCentroid (map (\<lambda>p. \<lparr> lat = pickup_lat p, lng = pickup_lng p \<rparr>) [passengerA, passengerB]) = \<lparr>lat = 0.01, lng = 0\<rparr>"
  by (simp add: calculateCentroid_def passengerA_def passengerB_def sampleRequest_def Let_def)

lemma constraintMap_AB: "\<lparr>maxSeats = cap_maxSeats (getVehicleCapacity Suv), maxLuggage = cap_maxLuggage (getVehicleCapacity Suv),
   passengerConstraints = foldl (\<lambda>m p. m(pid p \<mapsto> constraintOf p)) Map.empty [passengerA, passengerB]\<rparr> = constraintsAB"
  by (simp add: constraintsAB_def passengerA_def passengerB_def sampleRequest_def)

lemma vehicle_AB: "matcher_determineVehicleType
     (foldl (\<lambda>sum p. sum + seats_required p) 0 [passengerA, passengerB])
     (foldl (\<lambda>sum p. sum + luggage_count p) 0 [passengerA, passengerB]) = Some Suv"
  by (simp add: matcher_determineVehicleType_def passengerA_def passengerB_def sampleRequest_def)

lemma tryFormPool_AB: "tryFormPool ''pool_1'' [passengerA, passengerB] = Some proposalAB"
  unfolding tryFormPool_def Let_def
  apply (simp only: vehicle_AB option.case centroid_AB constraintMap_AB optimizeRoute_AB)
  apply (simp add: efficiency_AB proposalAB_def passengerA_def passengerB_def sampleRequest_def)
  done

lemma run_executes: "\<not> storeFails db \<Longrightarrow> run m db = m (db \<lparr> faults := tl (faults db) \<rparr>)"
  by (simp add: run_def)

lemma commit_AB:
  "pools_tbl (snd (processMatchingResults [passengerA, passengerB] [proposalAB] pendingStore)) ''pool_1''
     = Some \<lparr> pool_ident = ''pool_1'', driver_id = None, vehicle_type = Sedan,
              max_seats = 4, max_luggage = 3, current_seats = 2, current_luggage = 4,
              pool_status = Forming, pool_total_distance = total_distance routeAB,
              optimized_route = Some (routeAB \<lparr> detours := [] \<rparr>), created_at = 5000,
              version = 0 \<rparr>"
  by (simp add: processMatchingResults_def commitProposal_def proposalAB_def pendingStore_def
      tryCatch_def andThen_def onDb_def sqlInsertPool_def run_def storeFails_def return_def
      countPool_def countMatched_def sqlMatchPassenger_def sqlInsertWaypoint_def Let_def
      determineVehicleType_def routeAB_def passengerA_def passengerB_def sampleRequest_def)

text \<open>
  Claim C1, at the requests A and B. The greedy construction picks both passengers up before
  it drops B off. The first 2-opt candidate reverses the segment that holds B's pickup and
  B's dropoff; it is shorter, \<open>calculateDetours\<close> gives B the detour 0 (the pickup time of a
  passenger not yet picked up reads as 0), the detour check passes, and the candidate is
  adopted. The route that \<open>optimizeRoute\<close> and \<open>tryFormPool\<close> return drops B off before it
  picks B up.
\<close>

theorem two_opt_adopts_dropoff_before_pickup:
  "greedyRouteConstruction (buildWaypoints [passengerA, passengerB]) \<lparr> lat = 0.01, lng = 0 \<rparr>
       constraintsAB = Some greedyAB
   \<and> tryCandidate constraintsAB (greedyAB, False) (0, 2) = (routeAB, True)
   \<and> calculateDetours (waypoints routeAB) constraintsAB = [(''pass_B'', 0), (''pass_A'', 0)]
   \<and> optimizeRoute [passengerA, passengerB] \<lparr> lat = 0.01, lng = 0 \<rparr> constraintsAB = Some routeAB
   \<and> map_option (\<lambda>proposal. map (\<lambda>w. (passenger_id w, point_type w))
                                  (waypoints (mr_route proposal)))
         (tryFormPool ''pool_1'' [passengerA, passengerB])
       = Some [(''pass_A'', Pickup), (''pass_B'', Dropoff), (''pass_B'', Pickup),
               (''pass_A'', Dropoff)]"
proof -
  have greedy: "greedyRouteConstruction (buildWaypoints [passengerA, passengerB])
                  \<lparr> lat = 0.01, lng = 0 \<rparr> constraintsAB = Some greedyAB"
    unfolding buildWaypoints_AB by (rule greedy_AB)
  have candidate: "tryCandidate constraintsAB (greedyAB, False) (0, 2) = (routeAB, True)"
    using pi_gt_zero pi_less_4
    by (simp add: greedyAB_def routeAB_def tryCandidate_def reverseSegment_def Let_def
        calculateDetours_def detourViolated_def estimateTravelTime_def constraint_A constraint_B)
  have detours: "calculateDetours (waypoints routeAB) constraintsAB
                   = [(''pass_B'', 0), (''pass_A'', 0)]"
    by (simp add: routeAB_def calculateDetours_def estimateTravelTime_def constraint_A constraint_B)
  have "map (\<lambda>w. (passenger_id w, point_type w)) (waypoints (mr_route proposalAB))
                   = [(''pass_A'', Pickup), (''pass_B'', Dropoff), (''pass_B'', Pickup),
                      (''pass_A'', Dropoff)]"
    by (simp add: proposalAB_def routeAB_def)
  then have stops: "map_option (\<lambda>proposal. map (\<lambda>w. (passenger_id w, point_type w))
                                  (waypoints (mr_route proposal)))
         (tryFormPool ''pool_1'' [passengerA, passengerB])
       = Some [(''pass_A'', Pickup), (''pass_B'', Dropoff), (''pass_B'', Pickup),
               (''pass_A'', Dropoff)]"
    unfolding tryFormPool_AB by simp
  from greedy candidate detours optimizeRoute_AB stops show ?thesis
    by (intro conjI)
qed

text \<open>
  Claim C3, at the requests A and B, two pieces of luggage each. The matcher plans their pool
  for an SUV; the commit of the proposal stores a pool with \<open>max_luggage = 3\<close> and
  \<open>current_luggage = 4\<close>.
\<close>

theorem commit_stores_luggage_above_capacity:
  "map_option (\<lambda>proposal.
       map_option (\<lambda>pl. (current_luggage pl, max_luggage pl))
         (pools_tbl (snd (processMatchingResults [passengerA, passengerB] [proposal] pendingStore))
            ''pool_1''))
     (tryFormPool ''pool_1'' [passengerA, passengerB])
   = Some (Some (4, 3))"
  unfolding tryFormPool_AB by (simp add: commit_AB)

text \<open>
  Claim C4, at the requests A and B: two seats and four pieces of luggage in all. The smallest
  class that holds them is the SUV, which is the class \<open>tryFormPool\<close> plans the route for; the
  commit derives the class from the number of passengers and stores a sedan, whose luggage
  capacity is 3.
\<close>

theorem commit_stores_class_by_head_count:
  "map_option (\<lambda>proposal.
       map_option (\<lambda>pl. (vehicle_type pl, max_seats pl, max_luggage pl))
         (pools_tbl (snd (processMatchingResults [passengerA, passengerB] [proposal] pendingStore))
            ''pool_1''))
     (tryFormPool ''pool_1'' [passengerA, passengerB])
   = Some (Some (Sedan, 4, 3))
   \<and> seats_required passengerA + seats_required passengerB = 2
   \<and> luggage_count passengerA + luggage_count passengerB = 4
   \<and> matcher_determineVehicleType 2 4 = Some Suv
   \<and> determineVehicleType (length [passengerA, passengerB]) = Sedan"
proof -
  have "map_option (\<lambda>proposal.
       map_option (\<lambda>pl. (vehicle_type pl, max_seats pl, max_luggage pl))
         (pools_tbl (snd (processMatchingResults [passengerA, passengerB] [proposal] pendingStore))
            ''pool_1''))
     (tryFormPool ''pool_1'' [passengerA, passengerB])
   = Some (Some (Sedan, 4, 3))"
    unfolding tryFormPool_AB by (simp add: commit_AB)
  moreover have "seats_required passengerA + seats_required passengerB = 2"
    "luggage_count passengerA + luggage_count passengerB = 4"
    by (simp_all add: passengerA_def passengerB_def sampleRequest_def)
  moreover have "matcher_determineVehicleType 2 4 = Some Suv"
    by (simp add: matcher_determineVehicleType_def)
  moreover have "determineVehicleType (length [passengerA, passengerB]) = Sedan"
    by (simp add: determineVehicleType_def)
  ultimately show ?thesis by (intro conjI)
qed

section \<open>Properties of the route planner\<close>

lemma foldl_addPassengerId:
  "distinct acc \<Longrightarrow>
     distinct (foldl addPassengerId acc xs) \<and> set (foldl addPassengerId acc xs) = set acc \<union> set xs"
proof (induction xs arbitrary: acc)
  case Nil
  then show ?case by simp
next
  case (Cons x xs)
  have "distinct (addPassengerId acc x)" "set (addPassengerId acc x) = insert x (set acc)"
    using Cons.prems by (auto simp: addPassengerId_def)
  with Cons.IH[of "addPassengerId acc x"] show ?case by simp
qed

lemma foldl_add_option:
  "foldl (\<lambda>acc p. case f p of Some d \<Rightarrow> acc + d | None \<Rightarrow> acc) a xs
     = a + sum_list (map (\<lambda>p. case f p of Some d \<Rightarrow> d | None \<Rightarrow> (0::real)) xs)"
  by (induction xs arbitrary: a) (auto split: option.split)

lemma directDistanceOf_cases:
  "(case directDistanceOf ws p of Some d \<Rightarrow> d | None \<Rightarrow> 0)
     = (case (List.find (\<lambda>w. passenger_id w = p \<and> point_type w = Pickup) ws,
              List.find (\<lambda>w. passenger_id w = p \<and> point_type w = Dropoff) ws) of
          (Some pickup, Some dropoff) \<Rightarrow> haversineDistance pickup dropoff
        | _ \<Rightarrow> 0)"
  by (simp add: directDistanceOf_def split: option.split)

text \<open>
  Claim C10. \<open>calculateEfficiencyScore\<close> returns 0 for a route whose total distance is 0, and
  otherwise the sum of the direct pickup-to-dropoff distances of the distinct passengers of the
  route divided by the total distance. The result is a number for every route: the division,
  which gives NaN or an infinity for a zero divisor, is reached with a non-zero divisor only.
\<close>

theorem calculateEfficiencyScore_guarded_ratio:
  "calculateEfficiencyScore r =
     Some (if total_distance r = 0 then 0 else directDistanceSum r / total_distance r)
   \<and> calculateEfficiencyScore r \<noteq> None
   \<and> calculateEfficiencyScore (r \<lparr> total_distance := 0 \<rparr>) = Some 0"
proof -
  let ?ids = "foldl addPassengerId [] (map passenger_id (waypoints r))"
  have ids: "distinct ?ids" "set ?ids = set (map passenger_id (waypoints r))"
    using foldl_addPassengerId[of "[]" "map passenger_id (waypoints r)"] by simp_all
  have "foldl (\<lambda>acc p. case directDistanceOf (waypoints r) p of Some d \<Rightarrow> acc + d | None \<Rightarrow> acc)
          0 ?ids
        = sum_list (map (\<lambda>p. case directDistanceOf (waypoints r) p of Some d \<Rightarrow> d | None \<Rightarrow> 0) ?ids)"
    by (simp add: foldl_add_option)
  also have "\<dots> = (\<Sum>p \<in> set ?ids. case directDistanceOf (waypoints r) p of Some d \<Rightarrow> d | None \<Rightarrow> 0)"
    using ids(1) by (simp add: sum_list_distinct_conv_sum_set)
  also have "\<dots> = directDistanceSum r"
    unfolding directDistanceSum_def ids(2) directDistanceOf_cases by (rule refl)
  finally have a: "calculateEfficiencyScore r =
     Some (if total_distance r = 0 then 0 else directDistanceSum r / total_distance r)"
    by (simp add: calculateEfficiencyScore_def quotient_def Let_def)
  then have b: "calculateEfficiencyScore r \<noteq> None"
    by simp
  have c: "calculateEfficiencyScore (r \<lparr> total_distance := 0 \<rparr>) = Some 0"
    by (simp add: calculateEfficiencyScore_def Let_def)
  from a b c show ?thesis by (intro conjI)
qed

text \<open>
  The greedy loop ends within as many iterations as there are unvisited waypoints: more
  iterations allowed change nothing, so \<open>None\<close> is always the \<open>return null\<close> of the source.
\<close>

lemma findNearest_member:
  "findNearest loc P s l c best ws = Some (w, d) \<Longrightarrow> best = Some (w, d) \<or> w \<in> set ws"
  by (induction ws arbitrary: best) (auto simp: Let_def split: if_splits)

lemma unvisited_visit:
  "unvisited (visit constraints st w d) = remove1 w (unvisited st)"
  by (simp add: visit_def Let_def split: option.split)

lemma greedyLoop_fuel:
  "length (unvisited st) \<le> n \<Longrightarrow>
     greedyLoop n constraints st = greedyLoop (length (unvisited st)) constraints st"
proof (induction n arbitrary: st)
  case 0
  then show ?case by simp
next
  case (Suc n)
  show ?case
  proof (cases "unvisited st")
    case Nil
    then show ?thesis by simp
  next
    case (Cons u us)
    let ?found = "findNearest (currentLocation st) (pickedUp st) (currentSeats st)
                    (currentLuggage st) constraints None (unvisited st)"
    show ?thesis
    proof (cases ?found)
      case None
      with Cons show ?thesis by simp
    next
      case (Some wd)
      obtain w d where wd: "wd = (w, d)" by (cases wd)
      with Some findNearest_member[of _ _ _ _ _ None "unvisited st" w d]
      have mem: "w \<in> set (unvisited st)" by simp
      have len: "length (unvisited (visit constraints st w d)) = length us"
        using mem unfolding unvisited_visit length_remove1 Cons by simp
      have "greedyLoop (Suc n) constraints st = greedyLoop n constraints (visit constraints st w d)"
        using Cons Some wd by simp
      also have "\<dots> = greedyLoop (length us) constraints (visit constraints st w d)"
        using Suc.IH[of "visit constraints st w d"] Suc.prems Cons len by simp
      also have "\<dots> = greedyLoop (length (unvisited st)) constraints st"
        using Cons Some wd by simp
      finally show ?thesis .
    qed
  qed
qed

lemma firstNearest_here:
  assumes "valid x" and "\<forall>y \<in> set xs. valid y \<longrightarrow> haversineDistance loc x \<le> haversineDistance loc y"
  shows "firstNearest loc valid (x # xs) x (haversineDistance loc x)"
  unfolding firstNearest_def
  using assms by (intro exI[of _ "[]"] exI[of _ xs]) simp

lemma firstNearest_later:
  assumes "firstNearest loc valid xs w d" and "valid x \<longrightarrow> d < haversineDistance loc x"
  shows "firstNearest loc valid (x # xs) w d"
proof -
  from assms(1) obtain before after where
    h: "xs = before @ w # after" "valid w" "d = haversineDistance loc w"
       "\<forall>y \<in> set before. valid y \<longrightarrow> d < haversineDistance loc y"
       "\<forall>y \<in> set after. valid y \<longrightarrow> d \<le> haversineDistance loc y"
    unfolding firstNearest_def by blast
  show ?thesis
    unfolding firstNearest_def
    using h assms(2) by (intro exI[of _ "x # before"] exI[of _ after]) simp
qed

lemma findNearest_from_best:
  "findNearest loc P s l c (Some (bw, bd)) ws = res \<Longrightarrow>
     (res = Some (bw, bd)
        \<and> (\<forall>x \<in> set ws. isValidNextWaypoint x P s l c \<longrightarrow> bd \<le> haversineDistance loc x))
     \<or> (\<exists>w d. res = Some (w, d) \<and> d < bd
           \<and> firstNearest loc (\<lambda>x. isValidNextWaypoint x P s l c) ws w d)"
proof (induction ws arbitrary: bw bd)
  case Nil
  then show ?case by simp
next
  case (Cons x xs)
  let ?valid = "\<lambda>x. isValidNextWaypoint x P s l c"
  show ?case
  proof (cases "?valid x \<and> haversineDistance loc x < bd")
    case True
    with Cons.prems
    have "findNearest loc P s l c (Some (x, haversineDistance loc x)) xs = res"
      by (simp add: Let_def)
    from Cons.IH[OF this] show ?thesis
    proof (elim disjE conjE exE)
      assume "res = Some (x, haversineDistance loc x)"
        and "\<forall>y \<in> set xs. ?valid y \<longrightarrow> haversineDistance loc x \<le> haversineDistance loc y"
      with True firstNearest_here[of ?valid x xs loc] show ?thesis by simp
    next
      fix w d
      assume "res = Some (w, d)" "d < haversineDistance loc x"
        and "firstNearest loc ?valid xs w d"
      with True firstNearest_later[of loc ?valid xs w d x] show ?thesis by simp
    qed
  next
    case False
    with Cons.prems have "findNearest loc P s l c (Some (bw, bd)) xs = res"
      by (auto simp add: Let_def)
    from Cons.IH[OF this] show ?thesis
    proof (elim disjE conjE exE)
      assume "res = Some (bw, bd)"
        and "\<forall>y \<in> set xs. ?valid y \<longrightarrow> bd \<le> haversineDistance loc y"
      with False show ?thesis by auto
    next
      fix w d
      assume h: "res = Some (w, d)" "d < bd" "firstNearest loc ?valid xs w d"
      with False have "?valid x \<longrightarrow> d < haversineDistance loc x" by auto
      with h firstNearest_later[of loc ?valid xs w d x] show ?thesis by simp
    qed
  qed
qed

lemma findNearest_from_nothing:
  "findNearest loc P s l c None ws = res \<Longrightarrow>
     (res = None \<and> (\<forall>x \<in> set ws. \<not> isValidNextWaypoint x P s l c))
     \<or> (\<exists>w d. res = Some (w, d)
           \<and> firstNearest loc (\<lambda>x. isValidNextWaypoint x P s l c) ws w d)"
proof (induction ws)
  case Nil
  then show ?case by simp
next
  case (Cons x xs)
  let ?valid = "\<lambda>x. isValidNextWaypoint x P s l c"
  show ?case
  proof (cases "?valid x")
    case False
    with Cons.prems have "findNearest loc P s l c None xs = res" by simp
    from Cons.IH[OF this] show ?thesis
    proof (elim disjE conjE exE)
      assume "res = None" "\<forall>x \<in> set xs. \<not> ?valid x"
      with False show ?thesis by simp
    next
      fix w d
      assume h: "res = Some (w, d)" "firstNearest loc ?valid xs w d"
      with False firstNearest_later[of loc ?valid xs w d x] show ?thesis by simp
    qed
  next
    case True
    with Cons.prems
    have "findNearest loc P s l c (Some (x, haversineDistance loc x)) xs = res"
      by (simp add: Let_def)
    from findNearest_from_best[OF this] show ?thesis
    proof (elim disjE conjE exE)
      assume "res = Some (x, haversineDistance loc x)"
        and "\<forall>y \<in> set xs. ?valid y \<longrightarrow> haversineDistance loc x \<le> haversineDistance loc y"
      with True firstNearest_here[of ?valid x xs loc] show ?thesis by simp
    next
      fix w d
      assume "res = Some (w, d)" "d < haversineDistance loc x"
        and "firstNearest loc ?valid xs w d"
      with firstNearest_later[of loc ?valid xs w d x] show ?thesis by simp
    qed
  qed
qed

lemma buildWaypoints_CD: "buildWaypoints [passengerC, passengerD]
  = [stop ''pass_C'' Pickup 0, stop ''pass_C'' Dropoff 0.01,
     stop ''pass_D'' Pickup 0, stop ''pass_D'' Dropoff 0.02]"
  by (simp add: passengerC_def passengerD_def sampleRequest_def stop_def)

lemma constraint_C: "passengerConstraints constraintsCD ''pass_C'' = Some \<lparr> maxDetourMinutes = 15,
     directDistance = 6371 * (0.01 * (pi / 180)), directTime = estimateTravelTime (6371 * (0.01 * (pi / 180))),
     seatsRequired = 1, luggageCount = 2 \<rparr>"
  by (simp add: constraintsCD_def constraintOf_def passengerC_def passengerD_def sampleRequest_def Let_def)

lemma constraint_D: "passengerConstraints constraintsCD ''pass_D'' = Some \<lparr> maxDetourMinutes = 15,
     directDistance = 6371 * (0.02 * (pi / 180)), directTime = estimateTravelTime (6371 * (0.02 * (pi / 180))),
     seatsRequired = 1, luggageCount = 2 \<rparr>"
  by (simp add: constraintsCD_def constraintOf_def passengerC_def passengerD_def sampleRequest_def Let_def)

lemma capacity_CD: "maxSeats constraintsCD = 6" "maxLuggage constraintsCD = 5"
  by (simp_all add: constraintsCD_def)

lemma findNearest_CD:
  "findNearest \<lparr> lat = 0, lng = 0 \<rparr> {} 0 0 constraintsCD None
       (buildWaypoints [passengerC, passengerD])
     = Some (stop ''pass_C'' Pickup 0, 0)"
  unfolding buildWaypoints_CD
  using pi_gt_zero
  by (simp add: isValidNextWaypoint_def constraint_C constraint_D capacity_CD Let_def)

text \<open>
  Claim C9, as stated, at the requests C and D, whose pickups are the same point and of which
  D is the older: from that point, the pickups of C and of D are both valid and both at
  distance 0, and the greedy construction selects the pickup of C, the first in the list.
\<close>

theorem greedy_tie_ignores_request_time_counterexample:
  "findNearest \<lparr> lat = 0, lng = 0 \<rparr> {} 0 0 constraintsCD None
       (buildWaypoints [passengerC, passengerD])
     = Some (stop ''pass_C'' Pickup 0, 0)
   \<and> isValidNextWaypoint (stop ''pass_D'' Pickup 0) {} 0 0 constraintsCD
   \<and> haversineDistance \<lparr> lat = 0, lng = 0 \<rparr> (stop ''pass_D'' Pickup 0) = 0
   \<and> requested_at passengerD < requested_at passengerC
   \<and> map_option waypoints
        (greedyRouteConstruction (buildWaypoints [passengerC, passengerD])
           \<lparr> lat = 0, lng = 0 \<rparr> constraintsCD)
       = Some [stop ''pass_C'' Pickup 0, stop ''pass_D'' Pickup 0,
               stop ''pass_C'' Dropoff 0.01, stop ''pass_D'' Dropoff 0.02]"
proof -
  have "isValidNextWaypoint (stop ''pass_D'' Pickup 0) {} 0 0 constraintsCD"
    by (simp add: isValidNextWaypoint_def constraint_D capacity_CD)
  moreover have "haversineDistance \<lparr> lat = 0, lng = 0 \<rparr> (stop ''pass_D'' Pickup 0) = 0"
    by simp
  moreover have "requested_at passengerD < requested_at passengerC"
    by (simp add: passengerC_def passengerD_def sampleRequest_def)
  moreover have "map_option waypoints
        (greedyRouteConstruction (buildWaypoints [passengerC, passengerD])
           \<lparr> lat = 0, lng = 0 \<rparr> constraintsCD)
       = Some [stop ''pass_C'' Pickup 0, stop ''pass_D'' Pickup 0,
               stop ''pass_C'' Dropoff 0.01, stop ''pass_D'' Dropoff 0.02]"
    unfolding buildWaypoints_CD
    using pi_gt_zero pi_less_4
    by (simp add: greedyRouteConstruction_def numeral_eq_Suc isValidNextWaypoint_def
        constraint_C constraint_D capacity_CD visit_def Let_def calculateDetours_def
        detourViolated_def estimateTravelTime_def)
  ultimately show ?thesis using findNearest_CD by (intro conjI)
qed

text \<open>
  Claim C9, amended. The waypoint that an iteration of the greedy construction selects is the
  first of the nearest valid unvisited waypoints, in the order of the unvisited waypoints
  (the passengers in the order of the input list, the pickup of a passenger before its
  dropoff): when several valid waypoints are at the same least distance, the first of them is
  selected. No waypoint is selected only when none is valid.
\<close>

theorem greedy_tie_goes_to_first_in_order:
  "(findNearest loc P s l c None ws = Some (w, d)
      \<longrightarrow> firstNearest loc (\<lambda>x. isValidNextWaypoint x P s l c) ws w d)
   \<and> (findNearest loc P s l c None ws = None
      \<longrightarrow> (\<forall>x \<in> set ws. \<not> isValidNextWaypoint x P s l c))"
  using findNearest_from_nothing[of loc P s l c ws "findNearest loc P s l c None ws"]
  by auto

theorem greedy_tie_goes_to_first_in_order_witness:
  "firstNearest \<lparr> lat = 0, lng = 0 \<rparr> (\<lambda>x. isValidNextWaypoint x {} 0 0 constraintsCD)
     (buildWaypoints [passengerC, passengerD]) (stop ''pass_C'' Pickup 0) 0
   \<and> findNearest \<lparr> lat = 0, lng = 0 \<rparr> {} 0 0 constraintsCD None [stop ''pass_C'' Dropoff 0.01] = None
   \<and> \<not> isValidNextWaypoint (stop ''pass_C'' Dropoff 0.01) {} 0 0 constraintsCD"
proof -
  have none: "findNearest \<lparr> lat = 0, lng = 0 \<rparr> {} 0 0 constraintsCD None
                [stop ''pass_C'' Dropoff 0.01] = None"
    by (simp add: isValidNextWaypoint_def)
  from greedy_tie_goes_to_first_in_order[of "\<lparr> lat = 0, lng = 0 \<rparr>" "{}" 0 0 constraintsCD
      "buildWaypoints [passengerC, passengerD]" "stop ''pass_C'' Pickup 0" 0]
    findNearest_CD
  have "firstNearest \<lparr> lat = 0, lng = 0 \<rparr> (\<lambda>x. isValidNextWaypoint x {} 0 0 constraintsCD)
     (buildWaypoints [passengerC, passengerD]) (stop ''pass_C'' Pickup 0) 0"
    by simp
  moreover from greedy_tie_goes_to_first_in_order[of "\<lparr> lat = 0, lng = 0 \<rparr>" "{}" 0 0
      constraintsCD "[stop ''pass_C'' Dropoff 0.01]"] none
  have "\<not> isValidNextWaypoint (stop ''pass_C'' Dropoff 0.01) {} 0 0 constraintsCD"
    by simp
  ultimately show ?thesis using none by (intro conjI)
qed

section \<open>Properties of the concurrency control\<close>

text \<open>
  Claim C2, at a store in which \<open>req_A\<close> holds the lock of \<open>pool_1\<close> until 31000 and the clock
  reads 2000: \<open>acquirePoolLock\<close> for \<open>req_B\<close> returns a lock id. The insert changes no row and
  reports success, which is all the function tests; the row of \<open>req_A\<close> stays as it is.
\<close>

theorem acquirePoolLock_returns_handle_on_live_lease:
  "acquirePoolLock ''pool_1'' ''req_B'' noOptions lockedStore
     = (Returned (Some (''pool_1'', 2000)), lockedStore)
   \<and> map_option locked_by (pool_locks_tbl lockedStore ''pool_1'') = Some ''req_A''
   \<and> map_option (\<lambda>row. clock lockedStore < expires_at row) (pool_locks_tbl lockedStore ''pool_1'')
       = Some True"
  by (simp add: acquirePoolLock_def validTime_def lockedStore_def tryCatch_def andThen_def
      sqlInsertLock_def run_def storeFails_def return_def Let_def opts_ttlSeconds_def noOptions_def)

lemma acquirePoolLock_invalid:
  "\<not> validTime (clock db + opts_ttlSeconds options * 1000) \<Longrightarrow>
     acquirePoolLock poolId lockerId options db = (Threw RangeError, db)"
  by (simp add: acquirePoolLock_def Let_def)

lemma acquirePoolLock_store_fails:
  "validTime (clock db + opts_ttlSeconds options * 1000) \<Longrightarrow> storeFails db \<Longrightarrow>
     acquirePoolLock poolId lockerId options db = (Returned None, db \<lparr> faults := tl (faults db) \<rparr>)"
  by (simp add: acquirePoolLock_def Let_def tryCatch_def andThen_def sqlInsertLock_def run_def
      return_def)

lemma acquirePoolLock_store_works:
  "validTime (clock db + opts_ttlSeconds options * 1000) \<Longrightarrow> \<not> storeFails db \<Longrightarrow>
     fst (acquirePoolLock poolId lockerId options db) = Returned (Some (poolId, clock db))"
  by (simp add: acquirePoolLock_def Let_def tryCatch_def andThen_def sqlInsertLock_def run_def
      return_def split: option.split)

lemma acquirePoolLock_inserts:
  "validTime (clock db + opts_ttlSeconds options * 1000) \<Longrightarrow> \<not> storeFails db \<Longrightarrow>
   pool_locks_tbl db poolId = None \<Longrightarrow>
     pool_locks_tbl (snd (acquirePoolLock poolId lockerId options db)) poolId
       = Some \<lparr> locked_by = lockerId, locked_at = clock db,
                expires_at = clock db + opts_ttlSeconds options * 1000, lock_version = 1 \<rparr>"
  by (simp add: acquirePoolLock_def Let_def tryCatch_def andThen_def sqlInsertLock_def run_def
      return_def)

lemma acquirePoolLock_no_handle_iff:
  assumes "validTime (clock db + opts_ttlSeconds options * 1000)"
  shows "fst (acquirePoolLock poolId lockerId options db) = Returned None \<longleftrightarrow> storeFails db"
proof (cases "storeFails db")
  case True
  then show ?thesis using acquirePoolLock_store_fails [OF assms True] by simp
next
  case False
  then show ?thesis using acquirePoolLock_store_works [OF assms False] by simp
qed

lemma retryDelays_Suc:
  "retryDelays options (Suc k) = retryDelays options k @ [opts_retryDelayMs options * int (Suc k)]"
  by (simp add: retryDelays_def)

lemma afterDelays_0: "afterDelays options 0 (faults db) db = db"
  by (simp add: afterDelays_def retryDelays_def)

lemma afterDelays_fields [simp]:
  "faults (afterDelays options k rest db) = rest"
  "clock (afterDelays options k rest db)
     = clock db + sum_list (map (\<lambda>ms. max ms 0) (retryDelays options k))"
  "sleeps (afterDelays options k rest db) = sleeps db @ retryDelays options k"
  "pool_locks_tbl (afterDelays options k rest db) = pool_locks_tbl db"
  by (simp_all add: afterDelays_def)

lemma expiry_afterDelays:
  "clock (afterDelays options k rest db) + opts_ttlSeconds options * 1000 = expiryAfter options k db"
  by (simp add: expiryAfter_def)

lemma afterDelays_step:
  "snd (sleep (opts_retryDelayMs options * (int a + 1))
         (afterDelays options a (True # rest) db \<lparr> faults := rest \<rparr>))
     = afterDelays options (Suc a) rest db"
  by (simp add: afterDelays_def sleep_def retryDelays_Suc algebra_simps)

lemma acquireWithRetries_failures:
  assumes n: "n = nat (opts_maxRetries options)"
  shows "a + k < n \<Longrightarrow> (\<forall>j < a + k. validTime (expiryAfter options j db)) \<Longrightarrow>
     acquireWithRetries poolId lockerId options (int a)
        (afterDelays options a (replicate k True @ rest) db)
       = acquireWithRetries poolId lockerId options (int (a + k))
           (afterDelays options (a + k) rest db)"
proof (induction k arbitrary: a)
  case 0
  then show ?case by simp
next
  case (Suc k)
  let ?st = "afterDelays options a (True # replicate k True @ rest) db"
  have fails: "storeFails ?st" by (simp add: storeFails_def)
  have valid: "validTime (clock ?st + opts_ttlSeconds options * 1000)"
    unfolding expiry_afterDelays using Suc.prems(2) by simp
  have a1: "int a < opts_maxRetries options" "int a < opts_maxRetries options - 1"
    using Suc.prems(1) n by simp_all
  have "acquireWithRetries poolId lockerId options (int a) ?st
      = acquireWithRetries poolId lockerId options (int a + 1)
          (snd (sleep (opts_retryDelayMs options * (int a + 1))
                  (?st \<lparr> faults := replicate k True @ rest \<rparr>)))"
    by (subst acquireWithRetries.simps)
       (simp add: a1 acquirePoolLock_store_fails[OF valid fails])
  also have "\<dots> = acquireWithRetries poolId lockerId options (int (Suc a))
                     (afterDelays options (Suc a) (replicate k True @ rest) db)"
    by (simp only: afterDelays_step) (simp add: add.commute)
  also have "\<dots> = acquireWithRetries poolId lockerId options (int (Suc a + k))
                     (afterDelays options (Suc a + k) rest db)"
    using Suc.prems by (intro Suc.IH) simp_all
  finally show ?case by simp
qed

lemma acquireWithRetries_from_start:
  assumes n: "n = nat (opts_maxRetries options)" and k: "k < n"
    and f: "faults db = replicate k True @ rest"
    and v: "\<forall>j < k. validTime (expiryAfter options j db)"
  shows "acquireWithRetries poolId lockerId options 0 db
           = acquireWithRetries poolId lockerId options (int k) (afterDelays options k rest db)"
proof -
  have "db = afterDelays options 0 (replicate k True @ rest) db"
    using f afterDelays_0[of options db] by simp
  then have "acquireWithRetries poolId lockerId options 0 db
      = acquireWithRetries poolId lockerId options (int 0)
          (afterDelays options 0 (replicate k True @ rest) db)"
    by simp
  also have "\<dots> = acquireWithRetries poolId lockerId options (int (0 + k))
                     (afterDelays options (0 + k) rest db)"
    using k v by (intro acquireWithRetries_failures[OF n]) simp_all
  finally show ?thesis by simp
qed

lemma acquireWithRetries_exhausted:
  assumes n: "n = nat (opts_maxRetries options)"
    and f: "faults db = replicate n True @ rest"
    and v: "\<forall>j < n. validTime (expiryAfter options j db)"
  shows "acquireWithRetries poolId lockerId options 0 db
           = (Returned None, afterDelays options (n - 1) rest db)"
proof (cases n)
  case 0
  with f have "afterDelays options (n - 1) rest db = db"
    using afterDelays_0[of options db] by simp
  moreover have "acquireWithRetries poolId lockerId options 0 db = (Returned None, db)"
    using n 0 by (subst acquireWithRetries.simps) simp
  ultimately show ?thesis by simp
next
  case (Suc m)
  let ?st = "afterDelays options m (True # rest) db"
  have fails: "storeFails ?st" by (simp add: storeFails_def)
  have valid: "validTime (clock ?st + opts_ttlSeconds options * 1000)"
    unfolding expiry_afterDelays using v Suc by simp
  have m: "int m < opts_maxRetries options" "\<not> int m < opts_maxRetries options - 1"
    "\<not> int m + 1 < opts_maxRetries options"
    using n Suc by simp_all
  have "acquireWithRetries poolId lockerId options 0 db
      = acquireWithRetries poolId lockerId options (int m) ?st"
    using Suc f v
    by (intro acquireWithRetries_from_start[OF n]) (simp_all add: replicate_app_Cons_same)
  also have "\<dots> = acquireWithRetries poolId lockerId options (int m + 1) (?st \<lparr> faults := rest \<rparr>)"
    by (subst acquireWithRetries.simps) (simp add: m acquirePoolLock_store_fails[OF valid fails])
  also have "\<dots> = (Returned None, ?st \<lparr> faults := rest \<rparr>)"
    by (subst acquireWithRetries.simps) (simp add: m)
  also have "?st \<lparr> faults := rest \<rparr> = afterDelays options (n - 1) rest db"
    using Suc by (simp add: afterDelays_def)
  finally show ?thesis .
qed

lemma acquireWithRetries_acquired:
  assumes n: "n = nat (opts_maxRetries options)" and k: "k < n"
    and f: "faults db = replicate k True @ rest" and ok: "rest = [] \<or> \<not> hd rest"
    and v: "\<forall>j \<le> k. validTime (expiryAfter options j db)"
  shows "acquireWithRetries poolId lockerId options 0 db
           = (Returned (Some (poolId, clock (afterDelays options k rest db))),
              snd (acquirePoolLock poolId lockerId options (afterDelays options k rest db)))"
proof -
  let ?st = "afterDelays options k rest db"
  have works: "\<not> storeFails ?st"
    using ok by (cases rest) (simp_all add: storeFails_def)
  have valid: "validTime (clock ?st + opts_ttlSeconds options * 1000)"
    unfolding expiry_afterDelays using v by simp
  have kn: "int k < opts_maxRetries options" using n k by simp
  have "acquireWithRetries poolId lockerId options 0 db
      = acquireWithRetries poolId lockerId options (int k) ?st"
    using k f v by (intro acquireWithRetries_from_start[OF n]) simp_all
  also have "\<dots> = (Returned (Some (poolId, clock ?st)), snd (acquirePoolLock poolId lockerId options ?st))"
    using kn acquirePoolLock_store_works[OF valid works, of poolId lockerId]
    by (subst acquireWithRetries.simps) (simp add: split_beta split: prod.split)
  finally show ?thesis .
qed

lemma acquireWithRetries_invalid:
  assumes n: "n = nat (opts_maxRetries options)" and k: "k < n"
    and f: "faults db = replicate k True @ rest"
    and v: "\<forall>j < k. validTime (expiryAfter options j db)"
    and i: "\<not> validTime (expiryAfter options k db)"
  shows "acquireWithRetries poolId lockerId options 0 db
           = (Threw RangeError, afterDelays options k rest db)"
proof -
  let ?st = "afterDelays options k rest db"
  have invalid: "\<not> validTime (clock ?st + opts_ttlSeconds options * 1000)"
    unfolding expiry_afterDelays using i by simp
  have kn: "int k < opts_maxRetries options" using n k by simp
  have "acquireWithRetries poolId lockerId options 0 db
      = acquireWithRetries poolId lockerId options (int k) ?st"
    using k f v by (intro acquireWithRetries_from_start[OF n]) simp_all
  also have "\<dots> = (Threw RangeError, ?st)"
    using kn by (subst acquireWithRetries.simps) (simp add: acquirePoolLock_invalid[OF invalid])
  finally show ?thesis .
qed

lemma releasePoolLock_no_row:
  "\<not> storeFails db \<Longrightarrow>
     map_option locked_by (pool_locks_tbl (snd (releasePoolLock poolId lockerId db)) poolId)
       \<noteq> Some lockerId"
  by (simp add: releasePoolLock_def tryCatch_def andThen_def sqlDeleteLock_def run_def return_def
      split: option.split)

lemma releasePoolLock_store_fails:
  "storeFails db \<Longrightarrow>
     releasePoolLock poolId lockerId db = (Returned False, db \<lparr> faults := tl (faults db) \<rparr>)"
  by (simp add: releasePoolLock_def tryCatch_def andThen_def sqlDeleteLock_def run_def return_def)


lemma retryDelays_default:
  "retryDelays noOptions 0 = []" "retryDelays noOptions (Suc 0) = [50]"
  "retryDelays noOptions 2 = [50, 100]"
  by (simp_all add: retryDelays_def opts_retryDelayMs_def noOptions_def upt_rec)

lemma expiryAfter_default:
  assumes "j < 3" "0 \<le> clock db" "clock db \<le> 5000"
  shows "validTime (expiryAfter noOptions j db)"
proof -
  have ttl: "opts_ttlSeconds noOptions = 30"
    by (simp add: opts_ttlSeconds_def noOptions_def)
  have "j = 0 \<or> j = Suc 0 \<or> j = 2" using assms(1) by linarith
  then show ?thesis
    using assms(2,3)
    by (auto simp: expiryAfter_def validTime_def retryDelays_default ttl)
qed

text \<open>
  Claim C5, as stated, at a store without locks on which the insert of the lock is executed
  and the delete of the release fails: \<open>withPoolLock\<close> returns the result of the operation,
  and the lease of the locker is still in the table, until it expires. With a time to live of
  1e13 seconds the expiry is not a valid date: no attempt returns a handle, and \<open>withPoolLock\<close>
  throws instead of returning null.
\<close>

theorem withPoolLock_keeps_lease_when_release_fails_counterexample:
  "withPoolLock ''pool_1'' ''req_B'' (return cancelDone) noOptions
       (pendingStore \<lparr> faults := [False, True] \<rparr>)
     = (Returned (Some cancelDone),
        pendingStore \<lparr> pool_locks_tbl := [''pool_1'' \<mapsto>
            \<lparr> locked_by = ''req_B'', locked_at = 5000, expires_at = 35000, lock_version = 1 \<rparr>] \<rparr>)
   \<and> withPoolLock ''pool_1'' ''req_B'' (return cancelDone)
       \<lparr> ttlSeconds = Some 10000000000000, maxRetries = None, retryDelayMs = None \<rparr> pendingStore
     = (Threw RangeError, pendingStore)"
proof -
  have a: "withPoolLock ''pool_1'' ''req_B'' (return cancelDone) noOptions
       (pendingStore \<lparr> faults := [False, True] \<rparr>)
     = (Returned (Some cancelDone),
        pendingStore \<lparr> pool_locks_tbl := [''pool_1'' \<mapsto>
            \<lparr> locked_by = ''req_B'', locked_at = 5000, expires_at = 35000, lock_version = 1 \<rparr>] \<rparr>)"
    unfolding withPoolLock_def
    by (subst acquireWithRetries.simps)
       (simp add: opts_maxRetries_def opts_ttlSeconds_def noOptions_def acquirePoolLock_def
          validTime_def pendingStore_def tryCatch_def andThen_def sqlInsertLock_def run_def
          storeFails_def return_def releasePoolLock_def sqlDeleteLock_def Let_def)
  have b: "withPoolLock ''pool_1'' ''req_B'' (return cancelDone)
       \<lparr> ttlSeconds = Some 10000000000000, maxRetries = None, retryDelayMs = None \<rparr> pendingStore
     = (Threw RangeError, pendingStore)"
    unfolding withPoolLock_def
    by (subst acquireWithRetries.simps)
       (simp add: opts_maxRetries_def opts_ttlSeconds_def acquirePoolLock_def validTime_def
          pendingStore_def Let_def)
  from a b show ?thesis by (intro conjI)
qed

text \<open>
  Claim C5, amended. \<open>maxRetries\<close> is \<open>n\<close> (no attempt is made for a \<open>maxRetries\<close> below 1). An
  attempt whose expiry is a valid date returns no handle exactly when the store fails on its
  insert.

  If all \<open>n\<close> attempts return no handle, \<open>withPoolLock\<close> returns null without throwing, having
  asked for delays of \<open>retryDelayMs\<close> times 1, ..., \<open>n - 1\<close> between the attempts; the operation
  is not run, and the tables are those of the start: no lease is left.

  If the first \<open>k < n\<close> attempts return no handle and the next one returns a handle,
  \<open>withPoolLock\<close> has asked for delays of \<open>retryDelayMs\<close> times 1, ..., \<open>k\<close>, runs the operation,
  and then runs \<open>releasePoolLock\<close>, after a result and after an exception alike; it returns the
  result, or throws the exception again. Where the pool had no lease, the operation runs with
  the lease of the locker in the table. After a release that the store executes, no lease of
  the pool is held by the locker; a release on which the store fails leaves the table of
  leases as the operation left it.

  If the expiry that an attempt computes is not a valid date, \<open>withPoolLock\<close> throws
  \<open>RangeError\<close>; the operation is not run and the tables are those of the start.

  The defaults are 3 attempts and a base delay of 50 ms: delays of 50 and 100 ms.
\<close>

theorem withPoolLock_retries_runs_and_attempts_release:
  assumes "n = nat (opts_maxRetries options)"
  shows "(validTime (clock db + opts_ttlSeconds options * 1000) \<longrightarrow>
            (fst (acquirePoolLock poolId lockerId options db) = Returned None) = storeFails db)
       \<and> (faults db = replicate n True @ rest
            \<and> (\<forall>j < n. validTime (expiryAfter options j db)) \<longrightarrow>
            withPoolLock poolId lockerId operation options db
              = (Returned None, afterDelays options (n - 1) rest db))
       \<and> (k < n \<and> faults db = replicate k True @ rest \<and> (rest = [] \<or> \<not> hd rest)
            \<and> (\<forall>j \<le> k. validTime (expiryAfter options j db)) \<longrightarrow>
            (let db0 = afterDelays options k rest db;
                 db1 = snd (acquirePoolLock poolId lockerId options db0);
                 db2 = snd (operation db1);
                 db3 = snd (releasePoolLock poolId lockerId db2)
             in withPoolLock poolId lockerId operation options db
                  = (case fst (operation db1) of
                       Returned result \<Rightarrow> Returned (Some result)
                     | Threw error \<Rightarrow> Threw error, db3)
                \<and> (pool_locks_tbl db poolId = None \<longrightarrow>
                      pool_locks_tbl db1 poolId
                        = Some \<lparr> locked_by = lockerId, locked_at = clock db0,
                                 expires_at = expiryAfter options k db, lock_version = 1 \<rparr>)
                \<and> (\<not> storeFails db2 \<longrightarrow>
                      map_option locked_by (pool_locks_tbl db3 poolId) \<noteq> Some lockerId)
                \<and> (storeFails db2 \<longrightarrow> pool_locks_tbl db3 = pool_locks_tbl db2)))
       \<and> (k < n \<and> faults db = replicate k True @ rest
            \<and> (\<forall>j < k. validTime (expiryAfter options j db))
            \<and> \<not> validTime (expiryAfter options k db) \<longrightarrow>
            withPoolLock poolId lockerId operation options db
              = (Threw RangeError, afterDelays options k rest db))
       \<and> opts_maxRetries noOptions = 3 \<and> opts_retryDelayMs noOptions = 50
       \<and> retryDelays noOptions 2 = [50, 100]"
proof (intro conjI impI)
  assume "validTime (clock db + opts_ttlSeconds options * 1000)"
  then show "(fst (acquirePoolLock poolId lockerId options db) = Returned None) = storeFails db"
    by (rule acquirePoolLock_no_handle_iff)
next
  assume "faults db = replicate n True @ rest \<and> (\<forall>j < n. validTime (expiryAfter options j db))"
  then have "acquireWithRetries poolId lockerId options 0 db
               = (Returned None, afterDelays options (n - 1) rest db)"
    by (intro acquireWithRetries_exhausted[OF assms]) simp_all
  then show "withPoolLock poolId lockerId operation options db
               = (Returned None, afterDelays options (n - 1) rest db)"
    by (simp add: withPoolLock_def)
next
  assume a: "k < n \<and> faults db = replicate k True @ rest \<and> (rest = [] \<or> \<not> hd rest)
               \<and> (\<forall>j \<le> k. validTime (expiryAfter options j db))"
  let ?db0 = "afterDelays options k rest db"
  let ?db1 = "snd (acquirePoolLock poolId lockerId options ?db0)"
  let ?db2 = "snd (operation ?db1)"
  let ?db3 = "snd (releasePoolLock poolId lockerId ?db2)"
  have works: "\<not> storeFails ?db0"
    using a by (cases rest) (simp_all add: storeFails_def)
  have valid: "validTime (clock ?db0 + opts_ttlSeconds options * 1000)"
    unfolding expiry_afterDelays using a by simp
  have acq: "acquireWithRetries poolId lockerId options 0 db
               = (Returned (Some (poolId, clock ?db0)), ?db1)"
    using a by (intro acquireWithRetries_acquired[OF assms]) simp_all
  have res: "withPoolLock poolId lockerId operation options db
           = (case fst (operation ?db1) of
                Returned result \<Rightarrow> Returned (Some result)
              | Threw error \<Rightarrow> Threw error, ?db3)"
    by (simp add: withPoolLock_def acq split: prod.split outcome.split)
  have held: "pool_locks_tbl db poolId = None \<longrightarrow>
                pool_locks_tbl ?db1 poolId
                  = Some \<lparr> locked_by = lockerId, locked_at = clock ?db0,
                           expires_at = expiryAfter options k db, lock_version = 1 \<rparr>"
    using acquirePoolLock_inserts[OF valid works, of poolId lockerId]
    unfolding expiry_afterDelays by simp
  have released: "\<not> storeFails ?db2 \<longrightarrow>
                    map_option locked_by (pool_locks_tbl ?db3 poolId) \<noteq> Some lockerId"
    using releasePoolLock_no_row by blast
  have kept: "storeFails ?db2 \<longrightarrow> pool_locks_tbl ?db3 = pool_locks_tbl ?db2"
    by (simp add: releasePoolLock_store_fails)
  show "let db0 = ?db0; db1 = snd (acquirePoolLock poolId lockerId options db0);
            db2 = snd (operation db1); db3 = snd (releasePoolLock poolId lockerId db2)
        in withPoolLock poolId lockerId operation options db
             = (case fst (operation db1) of
                  Returned result \<Rightarrow> Returned (Some result)
                | Threw error \<Rightarrow> Threw error, db3)
           \<and> (pool_locks_tbl db poolId = None \<longrightarrow>
                 pool_locks_tbl db1 poolId
                   = Some \<lparr> locked_by = lockerId, locked_at = clock db0,
                            expires_at = expiryAfter options k db, lock_version = 1 \<rparr>)
           \<and> (\<not> storeFails db2 \<longrightarrow>
                 map_option locked_by (pool_locks_tbl db3 poolId) \<noteq> Some lockerId)
           \<and> (storeFails db2 \<longrightarrow> pool_locks_tbl db3 = pool_locks_tbl db2)"
    unfolding Let_def using res held released kept by (intro conjI)
next
  assume "k < n \<and> faults db = replicate k True @ rest
            \<and> (\<forall>j < k. validTime (expiryAfter options j db))
            \<and> \<not> validTime (expiryAfter options k db)"
  then have "acquireWithRetries poolId lockerId options 0 db
               = (Threw RangeError, afterDelays options k rest db)"
    by (intro acquireWithRetries_invalid[OF assms]) simp_all
  then show "withPoolLock poolId lockerId operation options db
               = (Threw RangeError, afterDelays options k rest db)"
    by (simp add: withPoolLock_def)
next
  show "opts_maxRetries noOptions = 3" by (simp add: opts_maxRetries_def noOptions_def)
  show "opts_retryDelayMs noOptions = 50" by (simp add: opts_retryDelayMs_def noOptions_def)
  show "retryDelays noOptions 2 = [50, 100]"
    by (simp add: retryDelays_def opts_retryDelayMs_def noOptions_def upt_rec)
qed

theorem withPoolLock_retries_runs_and_attempts_release_witness:
  "withPoolLock ''pool_1'' ''req_B'' (return cancelDone) noOptions
       (lockedStore \<lparr> faults := [True, True, True] \<rparr>)
     = (Returned None, lockedStore \<lparr> clock := 2150, sleeps := [50, 100] \<rparr>)
   \<and> withPoolLock ''pool_1'' ''req_B'' (\<lambda>db. (Threw (Error ''operation failed''), db)) noOptions
       (pendingStore \<lparr> faults := [True] \<rparr>)
     = (Threw (Error ''operation failed''), pendingStore \<lparr> clock := 5050, sleeps := [50] \<rparr>)
   \<and> withPoolLock ''pool_1'' ''req_B'' (return cancelDone) noOptions
       (pendingStore \<lparr> faults := [False, True] \<rparr>)
     = (Returned (Some cancelDone),
        pendingStore \<lparr> pool_locks_tbl := [''pool_1'' \<mapsto>
            \<lparr> locked_by = ''req_B'', locked_at = 5000, expires_at = 35000, lock_version = 1 \<rparr>] \<rparr>)
   \<and> withPoolLock ''pool_1'' ''req_B'' (return cancelDone)
       \<lparr> ttlSeconds = Some 10000000000000, maxRetries = Some 2, retryDelayMs = None \<rparr> pendingStore
     = (Threw RangeError, pendingStore)
   \<and> (fst (acquirePoolLock ''pool_1'' ''req_B'' noOptions lockedStore) = Returned None)
       = storeFails lockedStore"
proof -
  let ?long = "\<lparr> ttlSeconds = Some 10000000000000, maxRetries = Some 2, retryDelayMs = None \<rparr>"
  have n: "3 = nat (opts_maxRetries noOptions)" "2 = nat (opts_maxRetries ?long)"
    by (simp_all add: opts_maxRetries_def noOptions_def)
  have ttl: "opts_ttlSeconds noOptions = 30"
    by (simp add: opts_ttlSeconds_def noOptions_def)
  have r3: "replicate 3 True = [True, True, True]" by (simp add: numeral_3_eq_3)
  have v3: "\<forall>j<3. validTime (expiryAfter noOptions j (lockedStore \<lparr> faults := [True, True, True] \<rparr>))"
    by (simp add: expiryAfter_default lockedStore_def)
  have "withPoolLock ''pool_1'' ''req_B'' (return cancelDone) noOptions
          (lockedStore \<lparr> faults := [True, True, True] \<rparr>)
        = (Returned None, afterDelays noOptions (3 - 1) [] (lockedStore \<lparr> faults := [True, True, True] \<rparr>))"
    using withPoolLock_retries_runs_and_attempts_release[OF n(1),
        where db = "lockedStore \<lparr> faults := [True, True, True] \<rparr>" and rest = "[]"
          and poolId = "''pool_1''" and lockerId = "''req_B''" and operation = "return cancelDone"
          and k = 0, THEN conjunct2, THEN conjunct1] v3
    by (simp add: r3)
  moreover have "afterDelays noOptions (3 - 1) [] (lockedStore \<lparr> faults := [True, True, True] \<rparr>)
        = lockedStore \<lparr> clock := 2150, sleeps := [50, 100] \<rparr>"
    by (simp add: afterDelays_def retryDelays_default lockedStore_def)
  ultimately have exhausted: "withPoolLock ''pool_1'' ''req_B'' (return cancelDone) noOptions
       (lockedStore \<lparr> faults := [True, True, True] \<rparr>)
     = (Returned None, lockedStore \<lparr> clock := 2150, sleeps := [50, 100] \<rparr>)"
    by simp
  have v1: "\<forall>j\<le>1. validTime (expiryAfter noOptions j (pendingStore \<lparr> faults := [True] \<rparr>))"
    by (simp add: expiryAfter_default pendingStore_def)
  have thrown: "withPoolLock ''pool_1'' ''req_B'' (\<lambda>db. (Threw (Error ''operation failed''), db)) noOptions
       (pendingStore \<lparr> faults := [True] \<rparr>)
     = (Threw (Error ''operation failed''), pendingStore \<lparr> clock := 5050, sleeps := [50] \<rparr>)"
    using withPoolLock_retries_runs_and_attempts_release[OF n(1),
        where db = "pendingStore \<lparr> faults := [True] \<rparr>" and rest = "[]" and k = 1
          and poolId = "''pool_1''" and lockerId = "''req_B''"
          and operation = "\<lambda>db. (Threw (Error ''operation failed''), db)",
          THEN conjunct2, THEN conjunct2, THEN conjunct1] v1
    by (auto simp add: Let_def afterDelays_def retryDelays_default pendingStore_def acquirePoolLock_def
        validTime_def ttl tryCatch_def andThen_def sqlInsertLock_def run_def storeFails_def
        return_def releasePoolLock_def sqlDeleteLock_def)
  have v0: "\<forall>j\<le>0. validTime (expiryAfter noOptions j (pendingStore \<lparr> faults := [False, True] \<rparr>))"
    by (simp add: expiryAfter_default pendingStore_def)
  have kept: "withPoolLock ''pool_1'' ''req_B'' (return cancelDone) noOptions
       (pendingStore \<lparr> faults := [False, True] \<rparr>)
     = (Returned (Some cancelDone),
        pendingStore \<lparr> pool_locks_tbl := [''pool_1'' \<mapsto>
            \<lparr> locked_by = ''req_B'', locked_at = 5000, expires_at = 35000, lock_version = 1 \<rparr>] \<rparr>)"
    using withPoolLock_retries_runs_and_attempts_release[OF n(1),
        where db = "pendingStore \<lparr> faults := [False, True] \<rparr>" and rest = "[False, True]"
          and k = 0 and poolId = "''pool_1''" and lockerId = "''req_B''"
          and operation = "return cancelDone",
          THEN conjunct2, THEN conjunct2, THEN conjunct1] v0
    by (auto simp add: Let_def afterDelays_def retryDelays_default pendingStore_def acquirePoolLock_def
        validTime_def ttl tryCatch_def andThen_def sqlInsertLock_def run_def storeFails_def
        return_def releasePoolLock_def sqlDeleteLock_def)
  have invalid: "withPoolLock ''pool_1'' ''req_B'' (return cancelDone) ?long pendingStore
     = (Threw RangeError, pendingStore)"
    using withPoolLock_retries_runs_and_attempts_release[OF n(2),
        where db = "pendingStore" and rest = "[]" and k = 0
          and poolId = "''pool_1''" and lockerId = "''req_B''"
          and operation = "return cancelDone",
          THEN conjunct2, THEN conjunct2, THEN conjunct2, THEN conjunct1]
    by (auto simp add: afterDelays_def retryDelays_def expiryAfter_def validTime_def
        opts_ttlSeconds_def pendingStore_def)
  have handle: "(fst (acquirePoolLock ''pool_1'' ''req_B'' noOptions lockedStore) = Returned None)
       = storeFails lockedStore"
    using withPoolLock_retries_runs_and_attempts_release[OF n(1),
        where db = "lockedStore" and poolId = "''pool_1''" and lockerId = "''req_B''",
          THEN conjunct1]
    by (simp add: validTime_def ttl lockedStore_def)
  from exhausted thrown kept invalid handle show ?thesis by (intro conjI)
qed

section \<open>Properties of the dispatch service\<close>

text \<open>
  Claim C8. For a passenger whose state is Cancelled or Completed, \<open>cancelRideRequest\<close>, its
  select executed by the store, returns the failure result as a value and leaves every table,
  the clock and the lock table as they were.
\<close>

theorem cancel_terminal_passenger_fails:
  assumes "passengers_tbl db passengerId = Some p"
    and "status p = Cancelled \<or> status p = Completed"
    and "\<not> storeFails db"
  shows "cancelRideRequest requestId passengerId reason db
           = (Returned \<lparr> cancel_success = False, refund_amount = None \<rparr>,
              db \<lparr> faults := tl (faults db) \<rparr>)"
  using assms
  by (auto simp add: cancelRideRequest_def andThen_def sqlSelectPassenger_def run_executes
      return_def cancelFailed_def)

theorem cancel_terminal_passenger_fails_witness:
  "cancelRideRequest ''req_1'' ''pass_A'' None cancelledStore
     = (Returned \<lparr> cancel_success = False, refund_amount = None \<rparr>, cancelledStore)"
proof -
  have "passengers_tbl cancelledStore ''pass_A'' = Some (passengerA \<lparr> status := Cancelled \<rparr>)"
    by (simp add: cancelledStore_def)
  moreover have "status (passengerA \<lparr> status := Cancelled \<rparr>) = Cancelled
                 \<or> status (passengerA \<lparr> status := Cancelled \<rparr>) = Completed"
    by simp
  moreover have "\<not> storeFails cancelledStore"
    by (simp add: storeFails_def cancelledStore_def)
  ultimately have "cancelRideRequest ''req_1'' ''pass_A'' None cancelledStore
           = (Returned \<lparr> cancel_success = False, refund_amount = None \<rparr>,
              cancelledStore \<lparr> faults := tl (faults cancelledStore) \<rparr>)"
    by (rule cancel_terminal_passenger_fails)
  then show ?thesis by (simp add: cancelledStore_def)
qed

end
